theory Spec2Isabelle
  imports Main "HOL-Library.AList" "HOL-Library.Char_ord" "HOL-Library.List_Lexorder"
    "HOL-Library.Multiset"
begin

unbundle bit_operations_syntax

section \<open>Fixed-point decimals\<close>

text \<open>
  Prices, volumes, thresholds and rates are \<^verbatim>\<open>sdk.Dec\<close> values of the cosmos-sdk: a big
  integer counting units of \<open>10\<^sup>-\<^sup>1\<^sup>8\<close>. A \<open>Dec\<close> below is that integer, so \<open>1.0\<close> is
  \<open>10 ^ 18\<close>. \<^verbatim>\<open>Add\<close>, \<^verbatim>\<open>Sub\<close>, \<^verbatim>\<open>GTE\<close>, \<^verbatim>\<open>LTE\<close> and \<^verbatim>\<open>IsZero\<close> are the integer
  operations; \<^verbatim>\<open>Mul\<close> and \<^verbatim>\<open>Quo\<close> round the last digit half to even
  (\<^verbatim>\<open>chopPrecisionAndRound\<close>), \<^verbatim>\<open>QuoInt64\<close> truncates towards zero. The library's overflow
  panic (results beyond 315 bits) is outside the model. A nil \<^verbatim>\<open>Dec\<close> (the zero value
  of the Go struct) appears only where the source tests for it: as the missing threshold
  (\<open>None\<close>) and inside the zero-valued ticker of a provider's reply.
\<close>

type_synonym Dec = int

definition precisionReuse :: int where
  "precisionReuse = 10 ^ 18"

definition chopPrecisionAndRound :: "int \<Rightarrow> int" where
  "chopPrecisionAndRound d =
     (let a = \<bar>d\<bar>;
          quo = a div precisionReuse;
          rem = a mod precisionReuse;
          r = (if rem = 0 then quo
               else if 2 * rem < precisionReuse then quo
               else if 2 * rem > precisionReuse then quo + 1
               else if even quo then quo else quo + 1)
      in if d < 0 then - r else r)"

definition Mul :: "Dec \<Rightarrow> Dec \<Rightarrow> Dec" where
  "Mul d d2 = chopPrecisionAndRound (d * d2)"

text \<open>Truncating integer quotient (Go's \<^verbatim>\<open>big.Int.Quo\<close>); the divisor is never zero where it is used.\<close>

definition truncQuo :: "int \<Rightarrow> int \<Rightarrow> int" where
  "truncQuo a b = sgn a * sgn b * (\<bar>a\<bar> div \<bar>b\<bar>)"

definition Quo :: "Dec \<Rightarrow> Dec \<Rightarrow> Dec" where
  "Quo d d2 = chopPrecisionAndRound (truncQuo (d * precisionReuse * precisionReuse) d2)"

definition QuoInt64 :: "Dec \<Rightarrow> int \<Rightarrow> Dec" where
  "QuoInt64 d n = truncQuo d n"

section \<open>Data model\<close>

text \<open>
  Modelled from the spec: the \<^verbatim>\<open>types\<close> package (\<^verbatim>\<open>TickerPrice\<close>, \<^verbatim>\<open>CurrencyPair\<close> and its
  \<^verbatim>\<open>String\<close> method) is not among the sources. The spec gives
  \<open>TickerPrice = (Price, Volume, Time)\<close>, \<open>CurrencyPair = (Base, Quote, ...)\<close> and
  \<open>Symbol = Base \<parallel> Quote\<close>; the resolver reads no other field.
\<close>

record TickerPrice =
  Price :: Dec
  Volume :: Dec
  Time :: int

record CurrencyPair =
  Base :: string
  Quote :: string

definition String :: "CurrencyPair \<Rightarrow> string" where
  "String cp = Base cp @ Quote cp"

type_synonym Name = string

text \<open>
  A Go map is an association list with distinct keys. Go leaves the iteration order of a
  map unspecified; here a \<^verbatim>\<open>range\<close> loop visits the list in order, and a theorem about
  every list is a theorem about every order the input maps can be visited in. Writing a new
  key appends it, writing an existing key replaces its value in place (\<open>AList.update\<close>).
\<close>

type_synonym ('k, 'v) gomap = "('k \<times> 'v) list"

type_synonym AggregatedProviderPrices = "(Name, (string, TickerPrice) gomap) gomap"

datatype error =
    NotEnoughValues
  | NoTickers
  | ProviderNotFound Name
  | SaltFailure
  | OtherError string

section \<open>Deviation filter\<close>

definition defaultDeviationThreshold :: Dec where
  "defaultDeviationThreshold = 10 ^ 18"

definition isBetween :: "Dec \<Rightarrow> Dec \<Rightarrow> Dec \<Rightarrow> bool" where
  "isBetween p mean margin \<longleftrightarrow> p \<ge> mean - margin \<and> p \<le> mean + margin"

text \<open>
  \<^verbatim>\<open>FilterTickerDeviations\<close>. Its helper \<^verbatim>\<open>StandardDeviation\<close> is not among the sources
  and is the parameter \<open>sd\<close>: given the prices it returns an error or the pair
  (deviation, mean). The logger, the symbol (used for logging only) and the telemetry
  counter are left out. The result is Go's pair (map, error).
\<close>

definition FilterTickerDeviations ::
  "(Dec list \<Rightarrow> error + Dec \<times> Dec) \<Rightarrow> (Name, TickerPrice) gomap \<Rightarrow> Dec option
     \<Rightarrow> (Name, TickerPrice) gomap \<times> error option" where
  "FilterTickerDeviations sd tickerPrices deviationThreshold =
     (let threshold = (case deviationThreshold of
                         None \<Rightarrow> defaultDeviationThreshold
                       | Some t \<Rightarrow> t);
          prices = map (\<lambda>(providerName, tickerPrice). Price tickerPrice) tickerPrices
      in case sd prices of
           Inl err \<Rightarrow> (tickerPrices, Some err)
         | Inr (deviation, mean) \<Rightarrow>
             (filter (\<lambda>(providerName, tickerPrice).
                        isBetween (Price tickerPrice) mean (Mul deviation threshold))
                     tickerPrices,
              None))"

subsection \<open>The helpers that are not among the sources\<close>

text \<open>
  Integer square root by Newton's iteration from above: the largest \<open>x\<close> with
  \<open>x * x \<le> n\<close>.
\<close>

function sqrtNewton :: "int \<Rightarrow> int \<Rightarrow> int" where
  "sqrtNewton n x =
     (if 0 < x \<and> (x + n div x) div 2 < x then sqrtNewton n ((x + n div x) div 2) else x)"
  by pat_completeness auto
termination
  by (relation "measure (\<lambda>(n, x). nat x)") auto

declare sqrtNewton.simps [simp del]

definition sqrtFloor :: "int \<Rightarrow> int" where
  "sqrtFloor n = (if n \<le> 0 then 0 else sqrtNewton n n)"

text \<open>
  Modelled from the spec: \<^verbatim>\<open>StandardDeviation\<close> is not among the sources. The spec: "Compute
  arithmetic mean \<open>\<mu>\<close> and population standard deviation \<open>\<sigma>\<close> of the prices" (4.3) and
  "\<open>\<sigma>\<close> indeterminate with < 3 samples" (7). The mean is the sum divided by the count,
  the variance the mean of the squared distances to the mean, the deviation its square
  root rounded down to 18 digits; it returns (deviation, mean) as the call site expects.
\<close>

definition meanOf :: "Dec list \<Rightarrow> Dec" where
  "meanOf prices = QuoInt64 (sum_list prices) (int (length prices))"

definition varianceOf :: "Dec list \<Rightarrow> Dec" where
  "varianceOf prices =
     (let mean = meanOf prices
      in QuoInt64 (sum_list (map (\<lambda>price. Mul (price - mean) (price - mean)) prices))
           (int (length prices)))"

definition StandardDeviation :: "Dec list \<Rightarrow> error + Dec \<times> Dec" where
  "StandardDeviation prices =
     (if length prices < 3 then Inl NotEnoughValues
      else Inr (sqrtFloor (varianceOf prices * precisionReuse), meanOf prices))"

text \<open>
  Modelled from the spec: \<^verbatim>\<open>ComputeVWAP\<close> is not among the sources. The spec (4.4):
  "\<open>VWAP = \<Sigma>(price\<^sub>i \<sqdot> volume\<^sub>i) / \<Sigma>(volume\<^sub>i)\<close> over the surviving providers. If all volumes
  are zero, fall back to arithmetic mean." With no ticker at all neither quotient exists:
  that is the error the call sites check for.
\<close>

definition ComputeVWAP :: "TickerPrice list \<Rightarrow> error + Dec" where
  "ComputeVWAP prices =
     (if prices = [] then Inl NoTickers
      else
        let volumeSum = sum_list (map Volume prices)
        in if volumeSum = 0
           then Inr (QuoInt64 (sum_list (map Price prices)) (int (length prices)))
           else Inr (Quo (sum_list (map (\<lambda>tp. Mul (Price tp) (Volume tp)) prices)) volumeSum))"

section \<open>Cross-rate resolver\<close>

type_synonym USDRates = "(string, (Name, TickerPrice) gomap) gomap"

text \<open>\<^verbatim>\<open>vwapRate\<close>: the tickers of the map, in iteration order, go to \<^verbatim>\<open>ComputeVWAP\<close> (the parameter \<open>vwap\<close>).\<close>

definition vwapRate ::
  "(TickerPrice list \<Rightarrow> error + Dec) \<Rightarrow> (Name, TickerPrice) gomap \<Rightarrow> error + Dec" where
  "vwapRate vwap rates = vwap (map snd rates)"

text \<open>
  \<^verbatim>\<open>addRates\<close>: \<open>rates\<close> is \<^verbatim>\<open>usdRates[base]\<close>, nil (\<open>None\<close>) when the base has no entry yet. A
  provider that already has a rate keeps it. The Go function returns a nil error on every
  path; the result type keeps the error for the caller's check.
\<close>

definition addRates ::
  "(Name, TickerPrice) gomap option \<Rightarrow> (Name, TickerPrice) gomap
     \<Rightarrow> error + (Name, TickerPrice) gomap" where
  "addRates rates tickers =
     Inr (fold (\<lambda>(providerName, tickerPrice) rates.
                  if map_of rates providerName \<noteq> None then rates
                  else AList.update providerName tickerPrice rates)
               tickers
               (case rates of None \<Rightarrow> [] | Some r \<Rightarrow> r))"

text \<open>The first loop of \<^verbatim>\<open>convertTickersToUSD\<close>: group the ticker prices by symbol.\<close>

definition groupTicker ::
  "Name \<Rightarrow> string \<times> TickerPrice \<Rightarrow> (string, (Name, TickerPrice) gomap) gomap
     \<Rightarrow> (string, (Name, TickerPrice) gomap) gomap" where
  "groupTicker providerName entry providerPricesBySymbol =
     (case entry of
        (symbol, tickerPrice) \<Rightarrow>
          let m = (case map_of providerPricesBySymbol symbol of
                     None \<Rightarrow> []
                   | Some m \<Rightarrow> m)
          in AList.update symbol (AList.update providerName tickerPrice m)
               providerPricesBySymbol)"

definition groupBySymbol ::
  "AggregatedProviderPrices \<Rightarrow> (string, (Name, TickerPrice) gomap) gomap" where
  "groupBySymbol providerPrices =
     fold (\<lambda>(providerName, tickerPrices) providerPricesBySymbol.
             fold (groupTicker providerName) tickerPrices providerPricesBySymbol)
          providerPrices []"

text \<open>The second loop: the configured pairs of all providers, one per symbol, first seen first.\<close>

definition collectPairs :: "(Name, CurrencyPair list) gomap \<Rightarrow> CurrencyPair list" where
  "collectPairs providerPairs =
     snd (fold (\<lambda>(providerName, currencyPairs) acc.
                  fold (\<lambda>currencyPair (symbols, pairs).
                          let symbol = String currencyPair
                          in if symbol \<in> set symbols then (symbols, pairs)
                             else (symbol # symbols, pairs @ [currencyPair]))
                       currencyPairs acc)
               providerPairs ([], []))"

definition maxConversions :: nat where
  "maxConversions = 6"

text \<open>
  The head of every pass. \<^verbatim>\<open>sort.Slice\<close> orders the pairs by symbol; the symbols of the
  pending pairs are distinct, so the unstable sort has one possible result and \<open>sort_key\<close>
  computes it. The reorder loop then puts a pair whose base has a USD rate in front of the
  list built so far (\<^verbatim>\<open>append([]types.CurrencyPair{pair}, reordered...)\<close>) and any other
  pair behind it.
\<close>

definition reorder :: "USDRates \<Rightarrow> CurrencyPair list \<Rightarrow> CurrencyPair list" where
  "reorder usdRates pairs =
     fold (\<lambda>pair reordered.
             if map_of usdRates (Base pair) \<noteq> None then [pair] @ reordered
             else reordered @ [pair])
          pairs []"

definition orderPairs :: "USDRates \<Rightarrow> CurrencyPair list \<Rightarrow> CurrencyPair list" where
  "orderPairs usdRates pairs = reorder usdRates (sort_key String pairs)"

text \<open>
  The body of the loop over the pairs, up to the computation of \<^verbatim>\<open>newRates\<close>: the pair is
  parked (\<^verbatim>\<open>unresolved = append(unresolved, currencyPair); continue\<close>), the whole function
  fails (\<^verbatim>\<open>return nil, err\<close>), or the new rates of the pair's providers are known.
\<close>

datatype conversion = Parked | Failed error | Rates "(Name, TickerPrice) gomap"

definition convertPair ::
  "(Dec list \<Rightarrow> error + Dec \<times> Dec) \<Rightarrow> (TickerPrice list \<Rightarrow> error + Dec)
     \<Rightarrow> (string, Dec) gomap \<Rightarrow> (string, int) gomap
     \<Rightarrow> (string, (Name, TickerPrice) gomap) gomap \<Rightarrow> USDRates \<Rightarrow> CurrencyPair
     \<Rightarrow> conversion" where
  "convertPair sd vwap deviationThresholds providerMinOverrides providerPricesBySymbol
       usdRates currencyPair =
     (let symbol = String currencyPair;
          quote = Quote currencyPair;
          maxDeviation = map_of deviationThresholds quote;
          tickerPrices = (case map_of providerPricesBySymbol symbol of
                            None \<Rightarrow> []
                          | Some m \<Rightarrow> m)
      in if quote = ''USD'' then Rates tickerPrices
         else
           let minProviders = (case map_of providerMinOverrides quote of
                                 None \<Rightarrow> 3
                               | Some m \<Rightarrow> m)
           in case map_of usdRates quote of
                None \<Rightarrow> Parked
              | Some rates \<Rightarrow>
                  if int (length rates) < minProviders then Parked
                  else
                    (case FilterTickerDeviations sd rates maxDeviation of
                       (filtered, err) \<Rightarrow>
                         if err \<noteq> None \<and> length rates \<ge> 3 then Parked
                         else
                           (case vwapRate vwap filtered of
                              Inl e \<Rightarrow> Failed e
                            | Inr rate \<Rightarrow>
                                Rates (map (\<lambda>(providerName, tickerPrice).
                                              (providerName,
                                               \<lparr>Price = Mul (Price tickerPrice) rate,
                                                Volume = Volume tickerPrice,
                                                Time = Time tickerPrice\<rparr>))
                                           tickerPrices))))"

text \<open>The loop over the pairs of one pass: it threads \<^verbatim>\<open>usdRates\<close> and \<^verbatim>\<open>unresolved\<close>.\<close>

fun resolvePairs ::
  "(Dec list \<Rightarrow> error + Dec \<times> Dec) \<Rightarrow> (TickerPrice list \<Rightarrow> error + Dec)
     \<Rightarrow> (string, Dec) gomap \<Rightarrow> (string, int) gomap
     \<Rightarrow> (string, (Name, TickerPrice) gomap) gomap
     \<Rightarrow> CurrencyPair list \<Rightarrow> USDRates \<Rightarrow> CurrencyPair list
     \<Rightarrow> error + USDRates \<times> CurrencyPair list" where
  "resolvePairs sd vwap dt pmo bySymbol [] usdRates unresolved = Inr (usdRates, unresolved)"
| "resolvePairs sd vwap dt pmo bySymbol (currencyPair # pairs) usdRates unresolved =
     (case convertPair sd vwap dt pmo bySymbol usdRates currencyPair of
        Parked \<Rightarrow>
          resolvePairs sd vwap dt pmo bySymbol pairs usdRates (unresolved @ [currencyPair])
      | Failed e \<Rightarrow> Inl e
      | Rates newRates \<Rightarrow>
          if length newRates > 0 then
            (case addRates (map_of usdRates (Base currencyPair)) newRates of
               Inl e \<Rightarrow> Inl e
             | Inr newRates' \<Rightarrow>
                 resolvePairs sd vwap dt pmo bySymbol pairs
                   (AList.update (Base currencyPair) newRates' usdRates) unresolved)
          else resolvePairs sd vwap dt pmo bySymbol pairs usdRates unresolved)"

text \<open>
  The loop \<^verbatim>\<open>for i := 0; i < maxConversions; i++\<close>; the first argument counts the passes
  that are left.
\<close>

fun conversionPasses ::
  "(Dec list \<Rightarrow> error + Dec \<times> Dec) \<Rightarrow> (TickerPrice list \<Rightarrow> error + Dec)
     \<Rightarrow> (string, Dec) gomap \<Rightarrow> (string, int) gomap
     \<Rightarrow> (string, (Name, TickerPrice) gomap) gomap
     \<Rightarrow> nat \<Rightarrow> CurrencyPair list \<Rightarrow> USDRates \<Rightarrow> error + USDRates" where
  "conversionPasses sd vwap dt pmo bySymbol 0 pairs usdRates = Inr usdRates"
| "conversionPasses sd vwap dt pmo bySymbol (Suc n) pairs usdRates =
     (case resolvePairs sd vwap dt pmo bySymbol (orderPairs usdRates pairs) usdRates [] of
        Inl e \<Rightarrow> Inl e
      | Inr (usdRates', unresolved) \<Rightarrow>
          if length unresolved = 0 \<or> length unresolved = length (orderPairs usdRates pairs)
          then Inr usdRates'
          else conversionPasses sd vwap dt pmo bySymbol n unresolved usdRates')"

text \<open>
  The final loop, for one entry of \<^verbatim>\<open>usdRates\<close>: \<open>None\<close> when the loop body ends in one
  of its \<^verbatim>\<open>continue\<close> statements, the rate stored in \<^verbatim>\<open>ratesDec\<close> otherwise. The telemetry
  gauges (which convert to floating point) are left out.
\<close>

definition finalRate ::
  "(Dec list \<Rightarrow> error + Dec \<times> Dec) \<Rightarrow> (TickerPrice list \<Rightarrow> error + Dec)
     \<Rightarrow> (string, Dec) gomap \<Rightarrow> (string, int) gomap
     \<Rightarrow> string \<Rightarrow> (Name, TickerPrice) gomap \<Rightarrow> Dec option" where
  "finalRate sd vwap deviationThresholds providerMinOverrides denom tickers =
     (let threshold = map_of deviationThresholds denom
      in case FilterTickerDeviations sd tickers threshold of
           (filtered, err) \<Rightarrow>
             if err \<noteq> None \<and>
                (case map_of providerMinOverrides denom of
                   None \<Rightarrow> True
                 | Some minimum \<Rightarrow> int (length filtered) < minimum)
             then None
             else
               (case vwapRate vwap filtered of
                  Inl e \<Rightarrow> None
                | Inr rate \<Rightarrow> if rate = 0 then None else Some rate))"

definition finalRates ::
  "(Dec list \<Rightarrow> error + Dec \<times> Dec) \<Rightarrow> (TickerPrice list \<Rightarrow> error + Dec)
     \<Rightarrow> (string, Dec) gomap \<Rightarrow> (string, int) gomap
     \<Rightarrow> USDRates \<Rightarrow> (string, Dec) gomap" where
  "finalRates sd vwap deviationThresholds providerMinOverrides usdRates =
     fold (\<lambda>(denom, tickers) ratesDec.
             case finalRate sd vwap deviationThresholds providerMinOverrides denom tickers of
               None \<Rightarrow> ratesDec
             | Some rate \<Rightarrow> AList.update denom rate ratesDec)
          usdRates []"

text \<open>
  The part of \<^verbatim>\<open>convertTickersToUSD\<close> under "calculate USD values": the table of USD
  rates the final loop reads, or the error of a failed conversion.
\<close>

definition resolveUSDRates ::
  "(Dec list \<Rightarrow> error + Dec \<times> Dec) \<Rightarrow> (TickerPrice list \<Rightarrow> error + Dec)
     \<Rightarrow> AggregatedProviderPrices \<Rightarrow> (Name, CurrencyPair list) gomap
     \<Rightarrow> (string, Dec) gomap \<Rightarrow> (string, int) gomap
     \<Rightarrow> error + USDRates" where
  "resolveUSDRates sd vwap providerPrices providerPairs deviationThresholds
       providerMinOverrides =
     conversionPasses sd vwap deviationThresholds providerMinOverrides
       (groupBySymbol providerPrices) maxConversions (collectPairs providerPairs) []"

text \<open>
  \<^verbatim>\<open>convertTickersToUSD\<close>. Go returns a pair (map, error): \<open>Inl\<close> is (nil, err),
  \<open>Inr None\<close> is (nil, nil) and \<open>Inr (Some m)\<close> is (m, nil).
\<close>

definition convertTickersToUSD ::
  "(Dec list \<Rightarrow> error + Dec \<times> Dec) \<Rightarrow> (TickerPrice list \<Rightarrow> error + Dec)
     \<Rightarrow> AggregatedProviderPrices \<Rightarrow> (Name, CurrencyPair list) gomap
     \<Rightarrow> (string, Dec) gomap \<Rightarrow> (string, int) gomap
     \<Rightarrow> error + (string, Dec) gomap option" where
  "convertTickersToUSD sd vwap providerPrices providerPairs deviationThresholds
       providerMinOverrides =
     (if length providerPrices = 0 then Inr None
      else
        case resolveUSDRates sd vwap providerPrices providerPairs deviationThresholds
               providerMinOverrides of
          Inl e \<Rightarrow> Inl e
        | Inr usdRates \<Rightarrow>
            Inr (Some (finalRates sd vwap deviationThresholds providerMinOverrides usdRates)))"

text \<open>
  The rate of a base in the result of \<^verbatim>\<open>convertTickersToUSD\<close>, as a caller reads it
  (\<^verbatim>\<open>rates[base]\<close>): none on an error, on the nil map and for a base the map lacks.
\<close>

definition publishedRate :: "error + (string, Dec) gomap option \<Rightarrow> string \<Rightarrow> Dec option" where
  "publishedRate result base =
     (case result of
        Inl err \<Rightarrow> None
      | Inr None \<Rightarrow> None
      | Inr (Some rates) \<Rightarrow> map_of rates base)"

text \<open>
  The aggregated map with one more provider ticker, stored the way \<^verbatim>\<open>SetPrices\<close> stores
  it (\<^verbatim>\<open>providerPrices[providerName][symbol] = ticker\<close>).
\<close>

definition addTicker ::
  "Name \<Rightarrow> string \<Rightarrow> TickerPrice \<Rightarrow> AggregatedProviderPrices \<Rightarrow> AggregatedProviderPrices"
  where
  "addTicker providerName symbol t providerPrices =
     AList.update providerName
       (AList.update symbol t
          (case map_of providerPrices providerName of
             None \<Rightarrow> []
           | Some m \<Rightarrow> m))
       providerPrices"

text \<open>
  The bases whose table of USD rates can change with a ticker of the symbol \<open>symbol\<close>:
  the base of the pair with that symbol, and every base with a pair quoted in such a base
  (its tickers are converted at that base's rate).
\<close>

inductive convertsThrough :: "CurrencyPair list \<Rightarrow> string \<Rightarrow> string \<Rightarrow> bool"
  for pairs :: "CurrencyPair list" and symbol :: string where
  own: "cp \<in> set pairs \<Longrightarrow> String cp = symbol \<Longrightarrow> convertsThrough pairs symbol (Base cp)"
| via: "cp \<in> set pairs \<Longrightarrow> convertsThrough pairs symbol (Quote cp)
         \<Longrightarrow> convertsThrough pairs symbol (Base cp)"

definition GetComputedPrices ::
  "(Dec list \<Rightarrow> error + Dec \<times> Dec) \<Rightarrow> (TickerPrice list \<Rightarrow> error + Dec)
     \<Rightarrow> AggregatedProviderPrices \<Rightarrow> (Name, CurrencyPair list) gomap
     \<Rightarrow> (string, Dec) gomap \<Rightarrow> (string, int) gomap
     \<Rightarrow> error + (string, Dec) gomap option" where
  "GetComputedPrices sd vwap providerPrices providerPairs deviations providerMinOverrides =
     (case convertTickersToUSD sd vwap providerPrices providerPairs deviations
             providerMinOverrides of
        Inl err \<Rightarrow> Inl err
      | Inr rates \<Rightarrow> Inr rates)"

section \<open>Collecting the provider replies\<close>

text \<open>
  The critical section of \<^verbatim>\<open>SetPrices\<close> that merges one provider's reply into
  \<^verbatim>\<open>providerPrices\<close>. The reply of \<^verbatim>\<open>GetTickerPrices\<close> maps a symbol to a ticker; \<open>None\<close>
  stands for the zero value \<^verbatim>\<open>types.TickerPrice{}\<close> (nil decimals, zero time), the only
  value the test \<^verbatim>\<open>ticker == types.TickerPrice{}\<close> refuses. Tickers of a derivative symbol
  go to the price history instead of the aggregated map.
\<close>

type_synonym Reply = "(string, TickerPrice option) gomap"

definition filteredPairs :: "Reply \<Rightarrow> CurrencyPair list \<Rightarrow> CurrencyPair list" where
  "filteredPairs prices currencyPairs =
     filter (\<lambda>pair. case map_of prices (String pair) of
                       None \<Rightarrow> False
                     | Some None \<Rightarrow> False
                     | Some (Some ticker) \<Rightarrow> True)
            currencyPairs"

text \<open>
  The body of the second loop, for one pair that passed the test. The lookup cannot miss
  or yield the zero value there; the model leaves \<^verbatim>\<open>providerPrices\<close> alone in that case.
\<close>

definition acceptTicker ::
  "string list \<Rightarrow> Name \<Rightarrow> Reply \<Rightarrow> CurrencyPair
     \<Rightarrow> AggregatedProviderPrices \<times> (CurrencyPair \<times> Name \<times> TickerPrice) list
     \<Rightarrow> AggregatedProviderPrices \<times> (CurrencyPair \<times> Name \<times> TickerPrice) list" where
  "acceptTicker derivativeSymbols providerName prices pair acc =
     (case acc of
        (providerPrices, history) \<Rightarrow>
          (case map_of prices (String pair) of
             Some (Some ticker) \<Rightarrow>
               if String pair \<in> set derivativeSymbols
               then (providerPrices, history @ [(pair, providerName, ticker)])
               else
                 (AList.update providerName
                    (AList.update (String pair) ticker
                       (case map_of providerPrices providerName of
                          None \<Rightarrow> []
                        | Some m \<Rightarrow> m))
                    providerPrices,
                  history)
           | _ \<Rightarrow> (providerPrices, history)))"

definition mergeReply ::
  "string list \<Rightarrow> Name \<Rightarrow> CurrencyPair list \<Rightarrow> Reply
     \<Rightarrow> AggregatedProviderPrices \<times> (CurrencyPair \<times> Name \<times> TickerPrice) list
     \<Rightarrow> AggregatedProviderPrices \<times> (CurrencyPair \<times> Name \<times> TickerPrice) list" where
  "mergeReply derivativeSymbols providerName currencyPairs prices acc =
     fold (acceptTicker derivativeSymbols providerName prices)
          (filteredPairs prices currencyPairs) acc"

text \<open>
  \<^verbatim>\<open>ZeroProvider.Poll\<close>: every pair of the provider gets the ticker with price 0 and
  volume 1, stamped with the time of the poll.
\<close>

definition ZeroProvider_Poll :: "string list \<Rightarrow> int \<Rightarrow> Reply \<Rightarrow> Reply" where
  "ZeroProvider_Poll pairs timestamp tickers =
     fold (\<lambda>symbol tickers.
             AList.update symbol
               (Some \<lparr>Price = 0, Volume = 1 * precisionReuse, Time = timestamp\<rparr>) tickers)
          pairs tickers"

section \<open>Vote scheduler\<close>

text \<open>
  \<^verbatim>\<open>time.Time\<close> values the scheduler compares with \<^verbatim>\<open>!=\<close> (a comparison of the struct, not
  of the instant): the zero value of the field, \<^verbatim>\<open>time.Unix(0, 0)\<close>, and a reading of
  \<^verbatim>\<open>time.Now()\<close>, which carries a monotonic clock reading and so differs from both. An
  instant is a number of nanoseconds since the Unix epoch.
\<close>

datatype GoTime = ZeroTime | UnixEpoch | Clock int

fun instant :: "GoTime \<Rightarrow> int" where
  "instant ZeroTime = - 62135596800 * 10 ^ 9"
| "instant UnixEpoch = 0"
| "instant (Clock t) = t"

record PreviousPrevote =
  ExchangeRates :: string
  Salt :: string
  SubmitBlockHeight :: int

text \<open>
  The fields of \<^verbatim>\<open>Oracle\<close> that \<^verbatim>\<open>tick\<close> reads or writes; \<open>VotePeriod\<close> and
  \<open>OperatorAccount\<close> are \<^verbatim>\<open>o.oracleClient.VotePeriod\<close> (nanoseconds) and
  \<^verbatim>\<open>o.oracleClient.OperatorAccount.String()\<close>.
\<close>

record Oracle =
  previousPrevote :: "PreviousPrevote option"
  previousVotePeriod :: GoTime
  prices :: "(string, Dec) gomap option"
  VotePeriod :: int
  OperatorAccount :: string

text \<open>\<^verbatim>\<open>New\<close> sets no vote period and no prevote: both fields hold their zero value.\<close>

definition New :: "int \<Rightarrow> string \<Rightarrow> Oracle" where
  "New votePeriod operatorAccount =
     \<lparr>previousPrevote = None, previousVotePeriod = ZeroTime, prices = None,
      VotePeriod = votePeriod, OperatorAccount = operatorAccount\<rparr>"

text \<open>
  The messages \<^verbatim>\<open>tick\<close> builds, by their fields:
  \<^verbatim>\<open>MsgAggregateExchangeRatePrevote{Hash, Feeder}\<close> and
  \<^verbatim>\<open>MsgAggregateExchangeRateVote{Salt, ExchangeRates, Feeder}\<close>. A Go string is a
  sequence of bytes, here a list of \<open>char\<close>.
\<close>

datatype message = Prevote string string | Vote string string string

text \<open>
  \<^verbatim>\<open>utf8.DecodeRuneInString\<close>, as far as \<^verbatim>\<open>json.Marshal\<close> looks at it: the number of bytes
  of the encoding at the head of the string, or \<open>None\<close> where Go returns
  \<^verbatim>\<open>(RuneError, 1)\<close>: the first byte starts no encoding, the string ends inside the
  encoding, or a later byte is outside the range the first byte accepts.
\<close>

fun DecodeRune :: "string \<Rightarrow> nat option" where
  "DecodeRune [] = None"
| "DecodeRune (c # cs) =
     (let p0 = (of_char c :: int)
      in if p0 < 0x80 then Some 1
         else if p0 < 0xC2 \<or> 0xF4 < p0 then None
         else
           let sz = (if p0 < 0xE0 then 2 else if p0 < 0xF0 then 3 else 4);
               lo = (if p0 = 0xE0 then 0xA0 else if p0 = 0xF0 then 0x90 else 0x80);
               hi = (if p0 = 0xED then 0x9F else if p0 = 0xF4 then 0x8F else 0xBF)
           in if length cs < sz - 1 then None
              else if (of_char (cs ! 0) :: int) < lo \<or> hi < (of_char (cs ! 0) :: int) then None
              else if sz \<le> 2 then Some 2
              else if (of_char (cs ! 1) :: int) < 0x80 \<or> 0xBF < (of_char (cs ! 1) :: int)
              then None
              else if sz \<le> 3 then Some 3
              else if (of_char (cs ! 2) :: int) < 0x80 \<or> 0xBF < (of_char (cs ! 2) :: int)
              then None
              else Some 4)"

text \<open>
  \<^verbatim>\<open>json.Marshal\<close> writes a string field as a JSON string "coerced to valid UTF-8,
  replacing invalid bytes with the Unicode replacement rune" (package \<^verbatim>\<open>encoding/json\<close>):
  for every byte at which \<^verbatim>\<open>DecodeRuneInString\<close> gives \<^verbatim>\<open>(RuneError, 1)\<close> it writes
  \<^verbatim>\<open>\ufffd\<close> and goes on with the next byte. \<open>jsonString s\<close> is the string that the
  written text denotes, the one a reader of the payload gets back: \<open>s\<close> with each such
  byte replaced by the three bytes of U+FFFD. (The other escapes of the encoder, for
  quotes, control characters and \<^verbatim>\<open><>&\<close>, denote the character they replace.)
\<close>

fun jsonString :: "string \<Rightarrow> string" where
  "jsonString [] = []"
| "jsonString (c # cs) =
     (case DecodeRune (c # cs) of
        None \<Rightarrow> [CHR 0xEF, CHR 0xBF, CHR 0xBD] @ jsonString cs
      | Some sz \<Rightarrow> c # take (sz - 1) cs @ jsonString (drop (sz - 1) cs))"

text \<open>
  The payload \<^verbatim>\<open>PutTx\<close> receives is \<^verbatim>\<open>json.Marshal\<close> of the message; it is given here by
  the fields that the JSON text carries.
\<close>

fun jsonMarshal :: "message \<Rightarrow> message" where
  "jsonMarshal (Prevote hash feeder) = Prevote (jsonString hash) (jsonString feeder)"
| "jsonMarshal (Vote salt exchangeRates feeder) =
     Vote (jsonString salt) (jsonString exchangeRates) (jsonString feeder)"

text \<open>What a tick does to the outside, in order.\<close>

datatype effect =
    RanSetPrices
  | IncrCounter string
  | Submitted message
  | HealthchecksPing

text \<open>
  What the outside gives one tick: the clock, the outcome of \<^verbatim>\<open>SetPrices\<close> (an error, or the
  computed prices it stores in \<^verbatim>\<open>o.prices\<close>), the outcome of \<^verbatim>\<open>GenerateSalt(32)\<close>, and
  whether the topic submission inside \<^verbatim>\<open>PutTx\<close> fails. \<^verbatim>\<open>PutTx\<close> panics on a failed
  submission (its \<^verbatim>\<open>return err\<close> is behind the panic), so a tick either returns or panics.
\<close>

record TickEnv =
  now :: int
  setPricesResult :: "error + (string, Dec) gomap option"
  saltResult :: "error + string"
  putTxFails :: bool

datatype outcome = Returned "error option" | Panicked

text \<open>
  \<^verbatim>\<open>tmhash.NewTruncated\<close> is tendermint's SHA-256 cut to its first 20 bytes
  (\<^verbatim>\<open>TruncatedSize\<close>). Both are libraries; SHA-256 is written here after FIPS 180-4.
  A 32-bit word is an \<open>int\<close> below \<open>2 ^ 32\<close>, with the wrap-around written out.
\<close>

definition K256 :: "int list" where
  "K256 =
     [0x428A2F98, 0x71374491, 0xB5C0FBCF, 0xE9B5DBA5, 0x3956C25B, 0x59F111F1,
      0x923F82A4, 0xAB1C5ED5, 0xD807AA98, 0x12835B01, 0x243185BE, 0x550C7DC3,
      0x72BE5D74, 0x80DEB1FE, 0x9BDC06A7, 0xC19BF174, 0xE49B69C1, 0xEFBE4786,
      0x0FC19DC6, 0x240CA1CC, 0x2DE92C6F, 0x4A7484AA, 0x5CB0A9DC, 0x76F988DA,
      0x983E5152, 0xA831C66D, 0xB00327C8, 0xBF597FC7, 0xC6E00BF3, 0xD5A79147,
      0x06CA6351, 0x14292967, 0x27B70A85, 0x2E1B2138, 0x4D2C6DFC, 0x53380D13,
      0x650A7354, 0x766A0ABB, 0x81C2C92E, 0x92722C85, 0xA2BFE8A1, 0xA81A664B,
      0xC24B8B70, 0xC76C51A3, 0xD192E819, 0xD6990624, 0xF40E3585, 0x106AA070,
      0x19A4C116, 0x1E376C08, 0x2748774C, 0x34B0BCB5, 0x391C0CB3, 0x4ED8AA4A,
      0x5B9CCA4F, 0x682E6FF3, 0x748F82EE, 0x78A5636F, 0x84C87814, 0x8CC70208,
      0x90BEFFFA, 0xA4506CEB, 0xBEF9A3F7, 0xC67178F2]"

definition initialHash :: "int list" where
  "initialHash =
     [0x6A09E667, 0xBB67AE85, 0x3C6EF372, 0xA54FF53A, 0x510E527F, 0x9B05688C,
      0x1F83D9AB, 0x5BE0CD19]"

definition rotr :: "nat \<Rightarrow> int \<Rightarrow> int" where
  "rotr n x = x div 2 ^ n OR x * 2 ^ (32 - n) mod 2 ^ 32"

definition Ch :: "int \<Rightarrow> int \<Rightarrow> int \<Rightarrow> int" where
  "Ch x y z = (x AND y) XOR ((x XOR 0xffffffff) AND z)"

definition Maj :: "int \<Rightarrow> int \<Rightarrow> int \<Rightarrow> int" where
  "Maj x y z = (x AND y) XOR (x AND z) XOR (y AND z)"

definition bigSigma0 :: "int \<Rightarrow> int" where
  "bigSigma0 x = rotr 2 x XOR rotr 13 x XOR rotr 22 x"

definition bigSigma1 :: "int \<Rightarrow> int" where
  "bigSigma1 x = rotr 6 x XOR rotr 11 x XOR rotr 25 x"

definition smallSigma0 :: "int \<Rightarrow> int" where
  "smallSigma0 x = rotr 7 x XOR rotr 18 x XOR x div 2 ^ 3"

definition smallSigma1 :: "int \<Rightarrow> int" where
  "smallSigma1 x = rotr 17 x XOR rotr 19 x XOR x div 2 ^ 10"

text \<open>The message schedule: \<open>n\<close> more words behind the words \<open>w\<close>.\<close>

fun messageSchedule :: "nat \<Rightarrow> int list \<Rightarrow> int list" where
  "messageSchedule 0 w = w"
| "messageSchedule (Suc n) w =
     messageSchedule n
       (w @ [(smallSigma1 (w ! (length w - 2)) + w ! (length w - 7)
              + smallSigma0 (w ! (length w - 15)) + w ! (length w - 16)) mod 2 ^ 32])"

fun sha256Round :: "int \<times> int \<Rightarrow> int list \<Rightarrow> int list" where
  "sha256Round (k, w) [a, b, c, d, e, f, g, h] =
     (let t1 = h + bigSigma1 e + Ch e f g + k + w;
          t2 = bigSigma0 a + Maj a b c
      in [(t1 + t2) mod 2 ^ 32, a, b, c, (d + t1) mod 2 ^ 32, e, f, g])"
| "sha256Round (k, w) v = v"

definition sha256Block :: "int list \<Rightarrow> int list \<Rightarrow> int list" where
  "sha256Block hs block =
     map2 (\<lambda>x y. (x + y) mod 2 ^ 32) hs
       (fold sha256Round (zip K256 (messageSchedule 48 block)) hs)"

text \<open>
  Padding: the byte \<open>0x80\<close>, zero bytes up to 56 modulo 64, and the length of the message
  in bits as 8 bytes, the highest first.
\<close>

definition sha256Pad :: "int list \<Rightarrow> int list" where
  "sha256Pad msg =
     msg @ [0x80] @ replicate ((119 - length msg mod 64) mod 64) 0
       @ map (\<lambda>i. (8 * int (length msg)) div 256 ^ (7 - i) mod 256) [0..<8]"

definition toWords :: "int list \<Rightarrow> int list" where
  "toWords bs =
     map (\<lambda>i. ((bs ! (4 * i) * 256 + bs ! (4 * i + 1)) * 256 + bs ! (4 * i + 2)) * 256
                + bs ! (4 * i + 3))
       [0..<length bs div 4]"

fun hashBlocks :: "nat \<Rightarrow> int list \<Rightarrow> int list \<Rightarrow> int list" where
  "hashBlocks 0 hs ws = hs"
| "hashBlocks (Suc n) hs ws = hashBlocks n (sha256Block hs (take 16 ws)) (drop 16 ws)"

definition fromWord :: "int \<Rightarrow> int list" where
  "fromWord w = map (\<lambda>i. w div 256 ^ (3 - i) mod 256) [0..<4]"

definition sha256 :: "string \<Rightarrow> string" where
  "sha256 msg =
     (let ws = toWords (sha256Pad (map of_char msg))
      in map char_of (concat (map fromWord (hashBlocks (length ws div 16) initialHash ws))))"

definition tmhashTruncated :: "string \<Rightarrow> string" where
  "tmhashTruncated msg = take 20 (sha256 msg)"

text \<open>
  \<^verbatim>\<open>GetAggregateVoteHash\<close>; \<open>digest\<close> stands for writing the string to
  \<^verbatim>\<open>tmhash.NewTruncated()\<close> (a write that never fails) and taking the sum.
\<close>

definition GetAggregateVoteHash ::
  "(string \<Rightarrow> string) \<Rightarrow> string \<Rightarrow> string \<Rightarrow> string \<Rightarrow> string" where
  "GetAggregateVoteHash digest salt exchangeRatesStr voter =
     digest (salt @ '':'' @ exchangeRatesStr @ '':'' @ voter)"

text \<open>
  \<^verbatim>\<open>Oracle.tick\<close>. \<open>ratesString\<close> is
  \<^verbatim>\<open>GenerateExchangeRatesString(o.GetPrices())\<close>, the cosmos-sdk's sorted coin string of
  \<^verbatim>\<open>o.prices\<close>; it is \<open>None\<close> where the library panics (a denomination or amount it
  refuses). \<^verbatim>\<open>json.Marshal\<close> returns no error for a struct of strings. The result is the
  outcome, the oracle after the tick and the effects.
\<close>

definition tick ::
  "(string \<Rightarrow> string) \<Rightarrow> ((string, Dec) gomap option \<Rightarrow> string option)
     \<Rightarrow> TickEnv \<Rightarrow> Oracle \<Rightarrow> outcome \<times> Oracle \<times> effect list" where
  "tick digest ratesString env orc =
     (let blockHeight = Clock (now env);
          votingWindowEnd = instant (previousVotePeriod orc) + VotePeriod orc;
          nextVotingWindowEnd = votingWindowEnd + VotePeriod orc
      in if previousVotePeriod orc \<noteq> UnixEpoch \<and> votingWindowEnd > instant blockHeight
         then (Returned None, orc, [])
         else
           case setPricesResult env of
             Inl err \<Rightarrow> (Returned (Some err), orc, [RanSetPrices])
           | Inr computedPrices \<Rightarrow>
               let orc = orc\<lparr>prices := computedPrices\<rparr>
               in if previousVotePeriod orc \<noteq> UnixEpoch
                     \<and> nextVotingWindowEnd < instant blockHeight
                  then (Returned None,
                        orc\<lparr>previousVotePeriod := UnixEpoch, previousPrevote := None\<rparr>,
                        [RanSetPrices, IncrCounter ''vote.failure.missed''])
                  else
                    case saltResult env of
                      Inl err \<Rightarrow> (Returned (Some err), orc, [RanSetPrices])
                    | Inr salt \<Rightarrow>
                        (case ratesString (prices orc) of
                           None \<Rightarrow> (Panicked, orc, [RanSetPrices])
                         | Some exchangeRatesStr \<Rightarrow>
                             let hash = GetAggregateVoteHash digest salt exchangeRatesStr
                                          (OperatorAccount orc);
                                 preVoteMsg = Prevote hash (OperatorAccount orc)
                             in case previousPrevote orc of
                                  None \<Rightarrow>
                                    if putTxFails env then (Panicked, orc, [RanSetPrices])
                                    else
                                      (Returned None,
                                       orc\<lparr>previousVotePeriod := blockHeight,
                                         previousPrevote :=
                                           Some \<lparr>ExchangeRates = exchangeRatesStr,
                                                 Salt = salt,
                                                 SubmitBlockHeight =
                                                   instant blockHeight div 10 ^ 9\<rparr>\<rparr>,
                                       [RanSetPrices, Submitted (jsonMarshal preVoteMsg)])
                                | Some pp \<Rightarrow>
                                    let voteMsg = Vote (Salt pp) (ExchangeRates pp)
                                                    (OperatorAccount orc)
                                    in if putTxFails env then (Panicked, orc, [RanSetPrices])
                                       else
                                         (Returned None,
                                          orc\<lparr>previousPrevote := None,
                                            previousVotePeriod := UnixEpoch\<rparr>,
                                          [RanSetPrices, Submitted (jsonMarshal voteMsg),
                                           HealthchecksPing])))"

text \<open>
  The loop of \<^verbatim>\<open>Oracle.Start\<close> over the ticks the outside allows: an error of a tick is
  logged and the loop goes on; a panic ends the process.
\<close>

fun run ::
  "(string \<Rightarrow> string) \<Rightarrow> ((string, Dec) gomap option \<Rightarrow> string option)
     \<Rightarrow> TickEnv list \<Rightarrow> Oracle \<Rightarrow> effect list" where
  "run digest ratesString [] orc = []"
| "run digest ratesString (env # envs) orc =
     (case tick digest ratesString env orc of
        (Panicked, orc', effects) \<Rightarrow> effects
      | (Returned r, orc', effects) \<Rightarrow> effects @ run digest ratesString envs orc')"

text \<open>The payloads a run submitted to the topic, in order.\<close>

fun published :: "effect list \<Rightarrow> message list" where
  "published [] = []"
| "published (Submitted m # effects) = m # published effects"
| "published (e # effects) = published effects"

text \<open>
  Three predicates for the proof that a vote reveals what the prevote before it was built
  from: the payload \<open>m\<close> is the prevote built from the salt, rates and feeder that the vote
  payload \<open>m'\<close> was built from; that holds of every vote of a list of payloads and the
  payload before it; and the prevote the oracle holds, if any, went out as \<open>m\<close>.
\<close>

definition commitsTo :: "(string \<Rightarrow> string) \<Rightarrow> message \<Rightarrow> message \<Rightarrow> bool" where
  "commitsTo digest m m' \<longleftrightarrow>
     (\<forall>s r f. m' = Vote s r f \<longrightarrow>
        (\<exists>salt rates feeder.
           m' = jsonMarshal (Vote salt rates feeder)
           \<and> m = jsonMarshal (Prevote (GetAggregateVoteHash digest salt rates feeder) feeder)))"

definition bindingHolds :: "(string \<Rightarrow> string) \<Rightarrow> message list \<Rightarrow> bool" where
  "bindingHolds digest tr \<longleftrightarrow>
     (\<forall>k. Suc k < length tr \<longrightarrow> commitsTo digest (tr ! k) (tr ! Suc k))"

definition pendingMatches :: "(string \<Rightarrow> string) \<Rightarrow> message \<Rightarrow> Oracle \<Rightarrow> bool" where
  "pendingMatches digest m st \<longleftrightarrow>
     (\<forall>pp. previousPrevote st = Some pp \<longrightarrow>
        m = jsonMarshal
              (Prevote (GetAggregateVoteHash digest (Salt pp) (ExchangeRates pp)
                          (OperatorAccount st)) (OperatorAccount st)))"

section \<open>Example inputs\<close>

definition mkTicker :: "int \<Rightarrow> int \<Rightarrow> TickerPrice" where
  "mkTicker p v = \<lparr>Price = p, Volume = v, Time = 0\<rparr>"

text \<open>
  Scenario S2 of the spec: five providers report 10, 10.1, 9.9, 10.05 and 50, each with
  volume 1.
\<close>

definition scenarioS2 :: "(Name, TickerPrice) gomap" where
  "scenarioS2 =
     [(''A'', mkTicker (1000 * 10 ^ 16) (10 ^ 18)),
      (''B'', mkTicker (1010 * 10 ^ 16) (10 ^ 18)),
      (''C'', mkTicker (990 * 10 ^ 16) (10 ^ 18)),
      (''D'', mkTicker (1005 * 10 ^ 16) (10 ^ 18)),
      (''E'', mkTicker (5000 * 10 ^ 16) (10 ^ 18))]"

definition mkPair :: "string \<Rightarrow> string \<Rightarrow> CurrencyPair" where
  "mkPair b q = \<lparr>Base = b, Quote = q\<rparr>"

text \<open>Three prices that agree.\<close>

definition agreeing :: "(Name, TickerPrice) gomap" where
  "agreeing =
     [(''A'', mkTicker (2 * 10 ^ 18) (10 ^ 18)),
      (''B'', mkTicker (2 * 10 ^ 18) (10 ^ 18)),
      (''C'', mkTicker (2 * 10 ^ 18) (10 ^ 18))]"

text \<open>
  A second pass: ATOM and BTC have USD rates from their USD pairs; their pairs against
  USDC, and the pair of OSMO, are still pending.
\<close>

definition pendingPairs :: "CurrencyPair list" where
  "pendingPairs = [mkPair ''BTC'' ''USDC'', mkPair ''ATOM'' ''USDC'', mkPair ''OSMO'' ''USDC'']"

definition ratedBases :: USDRates where
  "ratedBases =
     [(''ATOM'', [(''A'', mkTicker (10 * 10 ^ 18) (10 ^ 18))]),
      (''BTC'', [(''A'', mkTicker (30000 * 10 ^ 18) (10 ^ 18))])]"

text \<open>A base whose only USD rate is the ticker of the zero provider, and one with a price of 5.\<close>

definition zeroRates :: USDRates where
  "zeroRates = [(''X'', [(''zero'', mkTicker 0 (10 ^ 18))])]"

definition singleRates :: USDRates where
  "singleRates = [(''X'', [(''A'', mkTicker (5 * 10 ^ 18) (10 ^ 18))])]"

text \<open>
  Scenario S5 of the spec: the vote period is 5 s; the prevote went out at second 100.
\<close>

definition submitted :: Oracle where
  "submitted =
     \<lparr>previousPrevote = Some \<lparr>ExchangeRates = ''ATOM:10'', Salt = ''5a17'',
                                SubmitBlockHeight = 100\<rparr>,
      previousVotePeriod = Clock (100 * 10 ^ 9),
      prices = None,
      VotePeriod = 5 * 10 ^ 9,
      OperatorAccount = ''0.0.5700506''\<rparr>"

definition idle :: Oracle where
  "idle =
     \<lparr>previousPrevote = None, previousVotePeriod = UnixEpoch, prices = None,
      VotePeriod = 5 * 10 ^ 9, OperatorAccount = ''0.0.5700506''\<rparr>"

definition tickAt :: "int \<Rightarrow> TickEnv" where
  "tickAt seconds =
     \<lparr>now = seconds * 10 ^ 9, setPricesResult = Inr (Some [(''ATOM'', 10 * 10 ^ 18)]),
      saltResult = Inr ''5a17'', putTxFails = False\<rparr>"

definition failingAt :: "int \<Rightarrow> TickEnv" where
  "failingAt seconds =
     \<lparr>now = seconds * 10 ^ 9, setPricesResult = Inl (ProviderNotFound ''stride''),
      saltResult = Inr ''5a17'', putTxFails = False\<rparr>"

definition ratesText :: "(string, Dec) gomap option \<Rightarrow> string option" where
  "ratesText computed = Some ''ATOM:10''"

text \<open>
  The same ticks with a salt as \<^verbatim>\<open>GenerateSalt(32)\<close> returns it, 64 hexadecimal digits, and
  with the coin string of the price 10 for ATOM.
\<close>

definition hexSalt :: string where
  "hexSalt = ''000102030405060708090a0b0c0d0e0f101112131415161718191a1b1c1d1e1f''"

definition saltedTickAt :: "int \<Rightarrow> TickEnv" where
  "saltedTickAt seconds =
     \<lparr>now = seconds * 10 ^ 9, setPricesResult = Inr (Some [(''ATOM'', 10 * 10 ^ 18)]),
      saltResult = Inr hexSalt, putTxFails = False\<rparr>"

definition coinsText :: "(string, Dec) gomap option \<Rightarrow> string option" where
  "coinsText computed = Some ''10.000000000000000000ATOM''"

text \<open>
  A base quoted in USD by four providers, with a deviation threshold of 0.5; three of the
  providers report 2.
\<close>

definition fourProviders :: "(Name, CurrencyPair list) gomap" where
  "fourProviders =
     [(''A'', [mkPair ''X'' ''USD'']), (''B'', [mkPair ''X'' ''USD'']),
      (''C'', [mkPair ''X'' ''USD'']), (''D'', [mkPair ''X'' ''USD''])]"

definition threeReports :: AggregatedProviderPrices where
  "threeReports =
     [(''A'', [(''XUSD'', mkTicker (2 * 10 ^ 18) (10 ^ 18))]),
      (''B'', [(''XUSD'', mkTicker (2 * 10 ^ 18) (10 ^ 18))]),
      (''C'', [(''XUSD'', mkTicker (2 * 10 ^ 18) (10 ^ 18))])]"

text \<open>
  Three bases: X and W are quoted in USD, Y in USD and in X. In the first set of reports
  three providers quote X at 2; in the second one provider quotes X at 2 and three quote
  Y at 2. In both, E quotes Y at 1 X and A quotes W at 5.
\<close>

definition crossPairs :: "(Name, CurrencyPair list) gomap" where
  "crossPairs =
     [(''A'', [mkPair ''X'' ''USD'', mkPair ''Y'' ''USD'', mkPair ''W'' ''USD'']),
      (''B'', [mkPair ''X'' ''USD'', mkPair ''Y'' ''USD'']),
      (''C'', [mkPair ''X'' ''USD'', mkPair ''Y'' ''USD'']),
      (''D'', [mkPair ''X'' ''USD'']),
      (''E'', [mkPair ''Y'' ''X''])]"

definition quotedReports :: AggregatedProviderPrices where
  "quotedReports =
     [(''A'', [(''XUSD'', mkTicker (2 * 10 ^ 18) (10 ^ 18)),
               (''WUSD'', mkTicker (5 * 10 ^ 18) (10 ^ 18))]),
      (''B'', [(''XUSD'', mkTicker (2 * 10 ^ 18) (10 ^ 18))]),
      (''C'', [(''XUSD'', mkTicker (2 * 10 ^ 18) (10 ^ 18))]),
      (''E'', [(''YX'', mkTicker (10 ^ 18) (10 ^ 18))])]"

definition convertedReports :: AggregatedProviderPrices where
  "convertedReports =
     [(''A'', [(''XUSD'', mkTicker (2 * 10 ^ 18) (10 ^ 18)),
               (''YUSD'', mkTicker (2 * 10 ^ 18) (10 ^ 18)),
               (''WUSD'', mkTicker (5 * 10 ^ 18) (10 ^ 18))]),
      (''B'', [(''YUSD'', mkTicker (2 * 10 ^ 18) (10 ^ 18))]),
      (''C'', [(''YUSD'', mkTicker (2 * 10 ^ 18) (10 ^ 18))]),
      (''E'', [(''YX'', mkTicker (10 ^ 18) (10 ^ 18))])]"

definition halfSigma :: "(string, Dec) gomap" where
  "halfSigma = [(''X'', 5 * 10 ^ 17)]"

section \<open>Properties of the deviation filter\<close>

lemma FilterTickerDeviations_error:
  "sd (map (\<lambda>(providerName, tickerPrice). Price tickerPrice) tp) = Inl e
   \<Longrightarrow> FilterTickerDeviations sd tp T = (tp, Some e)"
  by (simp add: FilterTickerDeviations_def)

lemma map_of_filter_value:
  "distinct (map fst xs) \<Longrightarrow>
   map_of (filter (\<lambda>(k, v). P v) xs) k = Some v \<longleftrightarrow> map_of xs k = Some v \<and> P v"
  by (simp add: distinct_map_filter)

text \<open>
  Newton's iteration from any start at or above the root ends in the integer square root;
  concrete deviations are then checked by squaring, not by running the iteration.
\<close>

lemma div_lower: "0 < (x::int) \<Longrightarrow> x * k \<le> n \<Longrightarrow> k \<le> n div x"
  by (metis mult.commute zdiv_mono1 nonzero_mult_div_cancel_left less_irrefl)

lemma sqrtNewton_floor:
  "0 \<le> s \<Longrightarrow> s * s \<le> n \<Longrightarrow> n < (s + 1) * (s + 1) \<Longrightarrow> s \<le> x \<Longrightarrow> sqrtNewton n x = s"
proof (induction n x rule: sqrtNewton.induct)
  case (1 n x)
  let ?y = "(x + n div x) div 2"
  show ?case
  proof (cases "0 < x")
    case False
    with 1 have "x = 0" "s = 0" by auto
    then show ?thesis by (simp add: sqrtNewton.simps)
  next
    case pos: True
    have "0 \<le> (x - s) * (x - s)" by simp
    then have "x * (2 * s - x) \<le> s * s" by (simp add: algebra_simps)
    with 1(3) have "x * (2 * s - x) \<le> n" by simp
    with pos have "2 * s - x \<le> n div x" by (rule div_lower)
    then have ylow: "s \<le> ?y" by simp
    show ?thesis
    proof (cases "?y < x")
      case True
      with pos have "sqrtNewton n x = sqrtNewton n ?y" by (simp add: sqrtNewton.simps)
      also have "\<dots> = s" using 1(1) [OF _ 1(2) 1(3) 1(4) ylow] pos True by simp
      finally show ?thesis .
    next
      case False
      then have "x \<le> n div x" by simp
      with pos have "x * x \<le> x * (n div x)" by simp
      also have "\<dots> \<le> n"
      proof -
        have "n = x * (n div x) + n mod x" by simp
        moreover have "0 \<le> n mod x" using pos by simp
        ultimately show ?thesis by linarith
      qed
      finally have "x * x < (s + 1) * (s + 1)" using 1(4) by simp
      with pos 1(2) have "x < s + 1"
        by (metis mult_less_cancel_left_pos mult_less_cancel_right_pos not_less mult_mono' less_le_trans linorder_not_le order_less_le zero_le_mult_iff add_nonneg_pos zero_less_one)
      with 1(5) have "x = s" by simp
      with pos False show ?thesis by (simp add: sqrtNewton.simps)
    qed
  qed
qed

lemma sqrtFloor_eqI:
  assumes "0 \<le> s" and "s * s \<le> n" and "n < (s + 1) * (s + 1)"
  shows "sqrtFloor n = s"
proof (cases "n \<le> 0")
  case True
  with assms(2) have "s * s \<le> 0" by simp
  with assms(1) have "s = 0" by (simp add: mult_le_0_iff)
  with True show ?thesis by (simp add: sqrtFloor_def)
next
  case False
  have "s \<le> s * s" using assms(1) by (cases "s = 0") (simp_all add: mult_le_cancel_left1)
  with assms(2) have "s \<le> n" by simp
  with assms False show ?thesis by (simp add: sqrtFloor_def sqrtNewton_floor)
qed

lemma StandardDeviation_eqI:
  assumes "3 \<le> length ps" and "meanOf ps = mean"
    and "varianceOf ps * precisionReuse = v"
    and "0 \<le> deviation" and "deviation * deviation \<le> v"
    and "v < (deviation + 1) * (deviation + 1)"
  shows "StandardDeviation ps = Inr (deviation, mean)"
  using assms sqrtFloor_eqI [of deviation v] by (simp add: StandardDeviation_def)

lemma scenarioS2_deviation:
  "StandardDeviation (map (\<lambda>(providerName, tickerPrice). Price tickerPrice) scenarioS2)
     = Inr (15995136760903296509, 18010000000000000000)"
proof (rule StandardDeviation_eqI)
  show "3 \<le> length (map (\<lambda>(providerName, tickerPrice). Price tickerPrice) scenarioS2)"
    by code_simp
  show "meanOf (map (\<lambda>(providerName, tickerPrice). Price tickerPrice) scenarioS2)
          = 18010000000000000000"
    by code_simp
  show "varianceOf (map (\<lambda>(providerName, tickerPrice). Price tickerPrice) scenarioS2)
          * precisionReuse = 255844400000000000000000000000000000000"
    by code_simp
qed simp_all

lemma survivorsS2_deviation:
  "StandardDeviation
     (map (\<lambda>(providerName, tickerPrice). Price tickerPrice) (take 4 scenarioS2))
     = Inr (73950997288745200, 10012500000000000000)"
proof (rule StandardDeviation_eqI)
  show "3 \<le> length (map (\<lambda>(providerName, tickerPrice). Price tickerPrice)
                       (take 4 scenarioS2))"
    by code_simp
  show "meanOf (map (\<lambda>(providerName, tickerPrice). Price tickerPrice) (take 4 scenarioS2))
          = 10012500000000000000"
    by code_simp
  show "varianceOf (map (\<lambda>(providerName, tickerPrice). Price tickerPrice)
                      (take 4 scenarioS2))
          * precisionReuse = 5468750000000000000000000000000000"
    by code_simp
qed simp_all

lemma scenarioS2_margin:
  "Mul 15995136760903296509 defaultDeviationThreshold = 15995136760903296509"
  by code_simp

lemma survivorsS2_margin:
  "Mul 73950997288745200 defaultDeviationThreshold = 73950997288745200"
  by code_simp

lemma scenarioS2_filtered:
  "FilterTickerDeviations StandardDeviation scenarioS2 None = (take 4 scenarioS2, None)"
  by (simp add: FilterTickerDeviations_def scenarioS2_deviation scenarioS2_margin
      isBetween_def) (simp add: scenarioS2_def mkTicker_def)

lemma survivorsS2_filtered:
  "FilterTickerDeviations StandardDeviation (take 4 scenarioS2) None
     = ([(''A'', mkTicker (1000 * 10 ^ 16) (10 ^ 18)),
         (''D'', mkTicker (1005 * 10 ^ 16) (10 ^ 18))], None)"
  by (simp add: FilterTickerDeviations_def survivorsS2_deviation survivorsS2_margin
      isBetween_def) (simp add: scenarioS2_def mkTicker_def)

lemma short_deviation:
  "StandardDeviation
     (map (\<lambda>(providerName, tickerPrice). Price tickerPrice) (take 2 scenarioS2))
     = Inl NotEnoughValues"
  by code_simp

text \<open>
  Claim C5. When \<^verbatim>\<open>StandardDeviation\<close> returns a deviation \<open>\<sigma>\<close> and a mean \<open>\<mu>\<close> for the
  prices of the map, the filter returns no error and exactly the providers of the map
  whose price \<open>p\<close> satisfies \<open>\<mu> - \<sigma>\<sqdot>T \<le> p \<le> \<mu> + \<sigma>\<sqdot>T\<close>, where \<open>T\<close> is the threshold (1.0
  when it is nil) and the product is the decimal product. When \<^verbatim>\<open>StandardDeviation\<close>
  returns an error, the filter returns the map it was given together with that error.
\<close>

theorem FilterTickerDeviations_interval:
  assumes "distinct (map fst tickerPrices)"
  shows "(\<forall>deviation mean.
            sd (map (\<lambda>(providerName, tickerPrice). Price tickerPrice) tickerPrices)
              = Inr (deviation, mean) \<longrightarrow>
            snd (FilterTickerDeviations sd tickerPrices T) = None
            \<and> distinct (map fst (fst (FilterTickerDeviations sd tickerPrices T)))
            \<and> (\<forall>p t. map_of (fst (FilterTickerDeviations sd tickerPrices T)) p = Some t \<longleftrightarrow>
                   map_of tickerPrices p = Some t
                   \<and> mean - Mul deviation
                              (case T of None \<Rightarrow> defaultDeviationThreshold | Some x \<Rightarrow> x)
                       \<le> Price t
                   \<and> Price t
                       \<le> mean + Mul deviation
                                  (case T of None \<Rightarrow> defaultDeviationThreshold | Some x \<Rightarrow> x)))
         \<and> (\<forall>e. sd (map (\<lambda>(providerName, tickerPrice). Price tickerPrice) tickerPrices)
                  = Inl e \<longrightarrow>
                FilterTickerDeviations sd tickerPrices T = (tickerPrices, Some e))"
proof (intro conjI allI impI)
  fix deviation mean
  assume sd: "sd (map (\<lambda>(providerName, tickerPrice). Price tickerPrice) tickerPrices)
              = Inr (deviation, mean)"
  let ?m = "Mul deviation (case T of None \<Rightarrow> defaultDeviationThreshold | Some x \<Rightarrow> x)"
  have F: "FilterTickerDeviations sd tickerPrices T =
           (filter (\<lambda>(providerName, tickerPrice). isBetween (Price tickerPrice) mean ?m)
                   tickerPrices, None)"
    using sd by (simp add: FilterTickerDeviations_def)
  show "snd (FilterTickerDeviations sd tickerPrices T) = None"
    by (simp add: F)
  show "distinct (map fst (fst (FilterTickerDeviations sd tickerPrices T)))"
    using assms by (simp add: F distinct_map_filter)
  fix p t
  show "map_of (fst (FilterTickerDeviations sd tickerPrices T)) p = Some t \<longleftrightarrow>
          map_of tickerPrices p = Some t \<and> mean - ?m \<le> Price t \<and> Price t \<le> mean + ?m"
    using assms
      map_of_filter_value [of tickerPrices "\<lambda>t. isBetween (Price t) mean ?m" p t]
    by (simp add: F isBetween_def)
next
  fix e
  assume "sd (map (\<lambda>(providerName, tickerPrice). Price tickerPrice) tickerPrices) = Inl e"
  then show "FilterTickerDeviations sd tickerPrices T = (tickerPrices, Some e)"
    by (rule FilterTickerDeviations_error)
qed

theorem FilterTickerDeviations_interval_witness:
  "snd (FilterTickerDeviations StandardDeviation scenarioS2 None) = None
   \<and> map_of (fst (FilterTickerDeviations StandardDeviation scenarioS2 None)) ''A''
       = Some (mkTicker (1000 * 10 ^ 16) (10 ^ 18))
   \<and> map_of (fst (FilterTickerDeviations StandardDeviation scenarioS2 None)) ''E'' = None
   \<and> FilterTickerDeviations StandardDeviation (take 2 scenarioS2) None
       = (take 2 scenarioS2, Some NotEnoughValues)"
proof -
  have d: "distinct (map fst scenarioS2)" by (simp add: scenarioS2_def)
  have d2: "distinct (map fst (take 2 scenarioS2))" by (simp add: scenarioS2_def)
  note a = FilterTickerDeviations_interval [OF d, of StandardDeviation None,
      THEN conjunct1, rule_format, OF scenarioS2_deviation]
  note b = FilterTickerDeviations_interval [OF d2, of StandardDeviation None,
      THEN conjunct2, rule_format, OF short_deviation]
  have A: "map_of scenarioS2 ''A'' = Some (mkTicker (1000 * 10 ^ 16) (10 ^ 18))"
    by (simp add: scenarioS2_def)
  have E: "map_of scenarioS2 ''E'' = Some (mkTicker (5000 * 10 ^ 16) (10 ^ 18))"
    by (simp add: scenarioS2_def)
  have 1: "snd (FilterTickerDeviations StandardDeviation scenarioS2 None) = None"
    using a by simp
  have 2: "map_of (fst (FilterTickerDeviations StandardDeviation scenarioS2 None)) ''A''
       = Some (mkTicker (1000 * 10 ^ 16) (10 ^ 18))"
    using a A scenarioS2_margin by (simp add: mkTicker_def)
  have 3: "map_of (fst (FilterTickerDeviations StandardDeviation scenarioS2 None)) ''E''
       = None"
  proof (cases "map_of (fst (FilterTickerDeviations StandardDeviation scenarioS2 None)) ''E''")
    case None
    then show ?thesis .
  next
    case (Some t)
    with a have "map_of scenarioS2 ''E'' = Some t
        \<and> Price t \<le> 18010000000000000000
                      + Mul 15995136760903296509 defaultDeviationThreshold"
      by simp
    with E scenarioS2_margin show ?thesis by (auto simp: mkTicker_def)
  qed
  from 1 2 3 b show ?thesis by simp
qed

text \<open>
  Claim C6, as stated: filtering the survivors again with the same threshold returns the
  same survivors. It fails on scenario S2 of the spec: the first application drops E (50);
  mean and deviation of the four survivors are then so close that B (10.1) and C (9.9)
  fall outside the band and the second application drops them.
\<close>

theorem FilterTickerDeviations_not_idempotent:
  "map fst (fst (FilterTickerDeviations StandardDeviation scenarioS2 None))
     = [''A'', ''B'', ''C'', ''D'']
   \<and> map fst (fst (FilterTickerDeviations StandardDeviation
                     (fst (FilterTickerDeviations StandardDeviation scenarioS2 None)) None))
     = [''A'', ''D'']"
  by (simp add: scenarioS2_filtered survivorsS2_filtered) (simp add: scenarioS2_def)

text \<open>
  Claim C6, amended. A second application with the same threshold never adds a provider:
  its survivors are among the survivors of the first. It returns all of them exactly when
  the deviation of the survivors cannot be computed or every survivor lies within the band
  computed from the survivors alone.
\<close>

theorem FilterTickerDeviations_twice:
  "set (fst (FilterTickerDeviations sd (fst (FilterTickerDeviations sd tp T)) T))
     \<subseteq> set (fst (FilterTickerDeviations sd tp T))
   \<and> (fst (FilterTickerDeviations sd (fst (FilterTickerDeviations sd tp T)) T)
        = fst (FilterTickerDeviations sd tp T)
      \<longleftrightarrow>
        (case sd (map (\<lambda>(providerName, tickerPrice). Price tickerPrice)
                    (fst (FilterTickerDeviations sd tp T))) of
           Inl e \<Rightarrow> True
         | Inr (deviation, mean) \<Rightarrow>
             (\<forall>(providerName, tickerPrice) \<in> set (fst (FilterTickerDeviations sd tp T)).
                 isBetween (Price tickerPrice) mean
                   (Mul deviation
                      (case T of None \<Rightarrow> defaultDeviationThreshold | Some x \<Rightarrow> x)))))"
proof -
  define S where "S = fst (FilterTickerDeviations sd tp T)"
  have "set (fst (FilterTickerDeviations sd S T)) \<subseteq> set S
     \<and> (fst (FilterTickerDeviations sd S T) = S \<longleftrightarrow>
          (case sd (map (\<lambda>(providerName, tickerPrice). Price tickerPrice) S) of
             Inl e \<Rightarrow> True
           | Inr (deviation, mean) \<Rightarrow>
               (\<forall>(providerName, tickerPrice) \<in> set S.
                   isBetween (Price tickerPrice) mean
                     (Mul deviation
                        (case T of None \<Rightarrow> defaultDeviationThreshold | Some x \<Rightarrow> x)))))"
    by (auto simp: FilterTickerDeviations_def filter_id_conv split: sum.splits)
  then show ?thesis unfolding S_def .
qed

theorem FilterTickerDeviations_twice_witness:
  "fst (FilterTickerDeviations StandardDeviation
          (fst (FilterTickerDeviations StandardDeviation agreeing None)) None)
     = fst (FilterTickerDeviations StandardDeviation agreeing None)
   \<and> set (fst (FilterTickerDeviations StandardDeviation
          (fst (FilterTickerDeviations StandardDeviation scenarioS2 None)) None))
     \<subseteq> set (fst (FilterTickerDeviations StandardDeviation scenarioS2 None))"
proof -
  have 1: "fst (FilterTickerDeviations StandardDeviation agreeing None) = agreeing"
    by code_simp
  have 2: "StandardDeviation
             (map (\<lambda>(providerName, tickerPrice). Price tickerPrice) agreeing)
             = Inr (0, 2 * 10 ^ 18)"
    by code_simp
  have 3: "\<forall>(providerName, tickerPrice) \<in> set agreeing.
              isBetween (Price tickerPrice) (2 * 10 ^ 18) (Mul 0 defaultDeviationThreshold)"
    by (simp add: agreeing_def mkTicker_def isBetween_def Mul_def chopPrecisionAndRound_def)
  show ?thesis
    using FilterTickerDeviations_twice [of StandardDeviation agreeing None]
      FilterTickerDeviations_twice [of StandardDeviation scenarioS2 None] 1 2 3
    by simp
qed

section \<open>Properties of the resolver\<close>

text \<open>
  Claim C10. With an empty aggregated provider price map, \<^verbatim>\<open>convertTickersToUSD\<close> and
  \<^verbatim>\<open>GetComputedPrices\<close> return (nil, nil): no error and the nil map, whatever the pairs,
  thresholds and minima are.
\<close>

theorem GetComputedPrices_empty:
  "convertTickersToUSD sd vwap [] providerPairs deviations providerMinOverrides = Inr None
   \<and> GetComputedPrices sd vwap [] providerPairs deviations providerMinOverrides = Inr None"
  by (simp add: GetComputedPrices_def convertTickersToUSD_def)

lemma reorder_fold:
  "fold (\<lambda>pair reordered.
           if map_of usdRates (Base pair) \<noteq> None then [pair] @ reordered
           else reordered @ [pair]) pairs acc
   = rev (filter (\<lambda>pair. map_of usdRates (Base pair) \<noteq> None) pairs) @ acc
       @ filter (\<lambda>pair. map_of usdRates (Base pair) = None) pairs"
  by (induction pairs arbitrary: acc) auto

text \<open>
  Claim C3, as stated: after the sort, the pairs whose base has a USD rate come first and
  both groups keep their lexicographic order. It fails in the pass of the example: the
  sorted list is ATOMUSDC, BTCUSDC, OSMOUSDC and a stable reorder would keep it, but the
  loop puts each rated pair in front of the ones before it and yields BTCUSDC, ATOMUSDC,
  OSMOUSDC.
\<close>

theorem orderPairs_not_stable:
  "orderPairs ratedBases pendingPairs
     = [mkPair ''BTC'' ''USDC'', mkPair ''ATOM'' ''USDC'', mkPair ''OSMO'' ''USDC'']
   \<and> filter (\<lambda>pair. map_of ratedBases (Base pair) \<noteq> None) (sort_key String pendingPairs)
       @ filter (\<lambda>pair. map_of ratedBases (Base pair) = None) (sort_key String pendingPairs)
     = [mkPair ''ATOM'' ''USDC'', mkPair ''BTC'' ''USDC'', mkPair ''OSMO'' ''USDC'']"
  by code_simp

text \<open>
  Claim C3, amended. At the start of every pass the pending pairs are sorted by symbol (a
  permutation of the pending list); then the pairs whose base has an entry in \<^verbatim>\<open>usdRates\<close>
  come first, in reverse lexicographic order, followed by the other pairs in
  lexicographic order.
\<close>

theorem orderPairs_groups:
  "sorted (map String (sort_key String pairs))
   \<and> mset (sort_key String pairs) = mset pairs
   \<and> orderPairs usdRates pairs
       = rev (filter (\<lambda>pair. map_of usdRates (Base pair) \<noteq> None) (sort_key String pairs))
         @ filter (\<lambda>pair. map_of usdRates (Base pair) = None) (sort_key String pairs)"
  unfolding orderPairs_def reorder_def reorder_fold by simp

lemma FilterTickerDeviations_failed:
  "snd (FilterTickerDeviations sd tp T) = Some e \<Longrightarrow>
   FilterTickerDeviations sd tp T = (tp, Some e)"
  by (auto simp: FilterTickerDeviations_def split: sum.splits)

lemma finalRates_fold:
  "distinct (map fst usdRates) \<Longrightarrow>
   map_of (fold (\<lambda>(denom, tickers) ratesDec.
             case finalRate sd vwap dt pmo denom tickers of
               None \<Rightarrow> ratesDec
             | Some rate \<Rightarrow> AList.update denom rate ratesDec) usdRates acc) d
   = (case map_of usdRates d of
        None \<Rightarrow> map_of acc d
      | Some tickers \<Rightarrow>
          (case finalRate sd vwap dt pmo d tickers of
             None \<Rightarrow> map_of acc d
           | Some rate \<Rightarrow> Some rate))"
proof (induction usdRates arbitrary: acc)
  case Nil
  then show ?case by simp
next
  case (Cons a usdRates)
  obtain k tk where a: "a = (k, tk)" by (cases a)
  from Cons.prems have dist: "distinct (map fst usdRates)" and k: "k \<notin> fst ` set usdRates"
    by (auto simp: a)
  from k have none: "map_of usdRates k = None"
    by (simp add: map_of_eq_None_iff)
  show ?case
    using Cons.IH [OF dist] none
    by (auto simp: a update_conv' split: option.splits)
qed

lemma finalRates_lookup:
  "distinct (map fst usdRates) \<Longrightarrow> map_of usdRates denom = Some tickers \<Longrightarrow>
   map_of (finalRates sd vwap dt pmo usdRates) denom = finalRate sd vwap dt pmo denom tickers"
  by (simp add: finalRates_def finalRates_fold split: option.splits)

text \<open>
  Claim C4, as stated: a base whose final filter fails is dropped if and only if fewer
  tickers survive than its minimum. It fails for a base with an override of 1 whose only
  USD rate is the ticker of the zero provider (price 0, volume 1): the filter fails, one
  ticker survives and meets the minimum, yet the base is dropped, because its rate is zero.
\<close>

theorem finalRates_minimum_met_dropped:
  "snd (FilterTickerDeviations StandardDeviation [(''zero'', mkTicker 0 (10 ^ 18))]
          (map_of [] ''X''))
     = Some NotEnoughValues
   \<and> \<not> int (length (fst (FilterTickerDeviations StandardDeviation
                           [(''zero'', mkTicker 0 (10 ^ 18))] (map_of [] ''X'')))) < 1
   \<and> map_of (finalRates StandardDeviation ComputeVWAP [] [(''X'', 1)] zeroRates) ''X'' = None
   \<and> convertTickersToUSD StandardDeviation ComputeVWAP
        [(''zero'', [(''XUSD'', mkTicker 0 (10 ^ 18))])] [(''zero'', [mkPair ''X'' ''USD''])]
        [] [(''X'', 1)] = Inr (Some [])"
  by code_simp

lemma FilterTickerDeviations_failed_sd:
  "snd (FilterTickerDeviations sd tp T) = Some e \<Longrightarrow>
   sd (map (\<lambda>(providerName, tickerPrice). Price tickerPrice) tp) = Inl e"
  by (auto simp: FilterTickerDeviations_def split: sum.splits)

lemma StandardDeviation_fails_short: "StandardDeviation ps = Inl err \<Longrightarrow> length ps < 3"
  by (simp add: StandardDeviation_def split: if_splits)

text \<open>
  Claim C4, amended. In the final step, for a base of \<^verbatim>\<open>usdRates\<close> whose filter returns an
  error, the filtered tickers are all the tickers of the base, and: with no override for the
  base it is dropped; with an override it is dropped when it has fewer tickers than the
  override; otherwise it is in the output, with the VWAP of its tickers as its rate,
  exactly when that VWAP is computed without error and is not zero. Where
  \<^verbatim>\<open>StandardDeviation\<close> fails only on fewer than 3 prices, this is: the base is dropped if
  and only if it has fewer tickers than its minimum (3 without an override) or its VWAP
  fails or is zero.
\<close>

theorem finalRates_filter_error:
  assumes "distinct (map fst usdRates)"
    and "map_of usdRates denom = Some tickers"
    and "snd (FilterTickerDeviations sd tickers (map_of deviationThresholds denom)) = Some e"
  shows "fst (FilterTickerDeviations sd tickers (map_of deviationThresholds denom)) = tickers
    \<and> map_of (finalRates sd vwap deviationThresholds providerMinOverrides usdRates) denom
      = (case map_of providerMinOverrides denom of
           None \<Rightarrow> None
         | Some minimum \<Rightarrow>
             if int (length tickers) < minimum then None
             else (case vwapRate vwap tickers of
                     Inl err \<Rightarrow> None
                   | Inr rate \<Rightarrow> if rate = 0 then None else Some rate))
    \<and> ((\<forall>ps err. sd ps = Inl err \<longrightarrow> length ps < 3) \<longrightarrow>
         (map_of (finalRates sd vwap deviationThresholds providerMinOverrides usdRates) denom
            = None
          \<longleftrightarrow> int (length tickers)
                < (case map_of providerMinOverrides denom of None \<Rightarrow> 3 | Some minimum \<Rightarrow> minimum)
              \<or> (case vwapRate vwap tickers of Inl err \<Rightarrow> True | Inr rate \<Rightarrow> rate = 0)))"
proof -
  have F: "FilterTickerDeviations sd tickers (map_of deviationThresholds denom)
             = (tickers, Some e)"
    using assms(3) by (rule FilterTickerDeviations_failed)
  have "finalRate sd vwap deviationThresholds providerMinOverrides denom tickers
      = (case map_of providerMinOverrides denom of
           None \<Rightarrow> None
         | Some minimum \<Rightarrow>
             if int (length tickers) < minimum then None
             else (case vwapRate vwap tickers of
                     Inl err \<Rightarrow> None
                   | Inr rate \<Rightarrow> if rate = 0 then None else Some rate))"
    by (simp add: finalRate_def F split: option.splits)
  with finalRates_lookup [OF assms(1,2)]
  have out: "map_of (finalRates sd vwap deviationThresholds providerMinOverrides usdRates)
               denom
      = (case map_of providerMinOverrides denom of
           None \<Rightarrow> None
         | Some minimum \<Rightarrow>
             if int (length tickers) < minimum then None
             else (case vwapRate vwap tickers of
                     Inl err \<Rightarrow> None
                   | Inr rate \<Rightarrow> if rate = 0 then None else Some rate))"
    by simp
  have "map_of (finalRates sd vwap deviationThresholds providerMinOverrides usdRates) denom
            = None
          \<longleftrightarrow> int (length tickers)
                < (case map_of providerMinOverrides denom of None \<Rightarrow> 3 | Some minimum \<Rightarrow> minimum)
              \<or> (case vwapRate vwap tickers of Inl err \<Rightarrow> True | Inr rate \<Rightarrow> rate = 0)"
    if short: "\<forall>ps err. sd ps = Inl err \<longrightarrow> length ps < 3"
  proof -
    from FilterTickerDeviations_failed_sd [OF assms(3)] short
    have "length (map (\<lambda>(providerName, tickerPrice). Price tickerPrice) tickers) < 3"
      by blast
    then have "int (length tickers) < 3" by simp
    then show ?thesis
      unfolding out by (auto split: option.splits sum.splits)
  qed
  with out F show ?thesis by simp
qed

theorem finalRates_filter_error_witness:
  "map_of (finalRates StandardDeviation ComputeVWAP [] [(''X'', 1)] singleRates) ''X''
     = Some (5 * 10 ^ 18)
   \<and> (map_of (finalRates StandardDeviation ComputeVWAP [] [(''X'', 1)] zeroRates) ''X'' = None
      \<longleftrightarrow> int (length [(''zero'', mkTicker 0 (10 ^ 18))]) < 1
          \<or> (case vwapRate ComputeVWAP [(''zero'', mkTicker 0 (10 ^ 18))] of
                Inl err \<Rightarrow> True
              | Inr rate \<Rightarrow> rate = 0))"
proof -
  have d: "distinct (map fst singleRates)" by (simp add: singleRates_def)
  have m: "map_of singleRates ''X'' = Some [(''A'', mkTicker (5 * 10 ^ 18) (10 ^ 18))]"
    by (simp add: singleRates_def)
  have f: "snd (FilterTickerDeviations StandardDeviation
                  [(''A'', mkTicker (5 * 10 ^ 18) (10 ^ 18))] (map_of [] ''X''))
     = Some NotEnoughValues"
    by code_simp
  have v: "vwapRate ComputeVWAP [(''A'', mkTicker (5 * 10 ^ 18) (10 ^ 18))]
             = Inr (5 * 10 ^ 18)"
    by code_simp
  have dz: "distinct (map fst zeroRates)" by (simp add: zeroRates_def)
  have mz: "map_of zeroRates ''X'' = Some [(''zero'', mkTicker 0 (10 ^ 18))]"
    by (simp add: zeroRates_def)
  have fz: "snd (FilterTickerDeviations StandardDeviation
                  [(''zero'', mkTicker 0 (10 ^ 18))] (map_of [] ''X''))
     = Some NotEnoughValues"
    by code_simp
  have short: "\<forall>ps err. StandardDeviation ps = Inl err \<longrightarrow> length ps < 3"
    using StandardDeviation_fails_short by blast
  have 1: "map_of (finalRates StandardDeviation ComputeVWAP [] [(''X'', 1)] singleRates) ''X''
     = Some (5 * 10 ^ 18)"
    using finalRates_filter_error [OF d m f, of ComputeVWAP "[(''X'', 1)]"] v by simp
  have 2: "map_of (finalRates StandardDeviation ComputeVWAP [] [(''X'', 1)] zeroRates) ''X''
             = None
      \<longleftrightarrow> int (length [(''zero'', mkTicker 0 (10 ^ 18))]) < 1
          \<or> (case vwapRate ComputeVWAP [(''zero'', mkTicker 0 (10 ^ 18))] of
                Inl err \<Rightarrow> True
              | Inr rate \<Rightarrow> rate = 0)"
    using finalRates_filter_error [OF dz mz fz, of ComputeVWAP "[(''X'', 1)]"] short
    by (simp split: sum.splits)
  from 1 2 show ?thesis by (rule conjI)
qed

lemma threeReports_rates:
  "resolveUSDRates StandardDeviation ComputeVWAP threeReports fourProviders halfSigma []
     = Inr [(''X'', [(''A'', mkTicker (2 * 10 ^ 18) (10 ^ 18)),
                     (''B'', mkTicker (2 * 10 ^ 18) (10 ^ 18)),
                     (''C'', mkTicker (2 * 10 ^ 18) (10 ^ 18))])]"
  by code_simp

lemma fourReports_rates:
  "resolveUSDRates StandardDeviation ComputeVWAP
     (addTicker ''D'' ''XUSD'' (mkTicker (6 * 10 ^ 18) (10 ^ 18)) threeReports)
     fourProviders halfSigma []
     = Inr [(''X'', [(''A'', mkTicker (2 * 10 ^ 18) (10 ^ 18)),
                     (''B'', mkTicker (2 * 10 ^ 18) (10 ^ 18)),
                     (''C'', mkTicker (2 * 10 ^ 18) (10 ^ 18)),
                     (''D'', mkTicker (6 * 10 ^ 18) (10 ^ 18))])]"
  by code_simp

lemma threeReports_final:
  "finalRates StandardDeviation ComputeVWAP halfSigma []
     [(''X'', [(''A'', mkTicker (2 * 10 ^ 18) (10 ^ 18)),
               (''B'', mkTicker (2 * 10 ^ 18) (10 ^ 18)),
               (''C'', mkTicker (2 * 10 ^ 18) (10 ^ 18))])]
     = [(''X'', 2 * 10 ^ 18)]"
  by code_simp

lemma fourReports_deviation:
  "StandardDeviation [2 * 10 ^ 18, 2 * 10 ^ 18, 2 * 10 ^ 18, 6 * 10 ^ 18]
     = Inr (1732050807568877293, 3 * 10 ^ 18)"
proof (rule StandardDeviation_eqI)
  show "meanOf [2 * 10 ^ 18, 2 * 10 ^ 18, 2 * 10 ^ 18, 6 * 10 ^ 18] = 3 * 10 ^ 18"
    by code_simp
  show "varianceOf [2 * 10 ^ 18, 2 * 10 ^ 18, 2 * 10 ^ 18, 6 * 10 ^ 18] * precisionReuse
          = 3000000000000000000000000000000000000"
    by code_simp
qed simp_all

lemma fourReports_margin: "Mul 1732050807568877293 (5 * 10 ^ 17) = 866025403784438646"
  by code_simp

lemma fourReports_final:
  "finalRates StandardDeviation ComputeVWAP halfSigma []
     [(''X'', [(''A'', mkTicker (2 * 10 ^ 18) (10 ^ 18)),
               (''B'', mkTicker (2 * 10 ^ 18) (10 ^ 18)),
               (''C'', mkTicker (2 * 10 ^ 18) (10 ^ 18)),
               (''D'', mkTicker (6 * 10 ^ 18) (10 ^ 18))])]
     = []"
  using fourReports_deviation fourReports_margin
  by (simp add: finalRates_def finalRate_def FilterTickerDeviations_def halfSigma_def
      mkTicker_def isBetween_def vwapRate_def ComputeVWAP_def)

lemma convertPair_USD:
  "Quote cp = ''USD'' \<Longrightarrow>
   convertPair sd vwap dt pmo bs U cp
     = Rates (case map_of bs (String cp) of None \<Rightarrow> [] | Some m \<Rightarrow> m)"
  by (simp add: convertPair_def)

lemma addRates_Inr: "\<exists>r. addRates rates tickers = Inr r"
  by (simp add: addRates_def)

lemma resolvePairs_USD:
  assumes "\<forall>cp \<in> set ps. Quote cp = ''USD''"
  shows "\<exists>U'. resolvePairs sd vwap dt pmo bs ps U unres = Inr (U', unres)
     \<and> fst ` set U' = fst ` set U
          \<union> Base ` {cp \<in> set ps.
                      (case map_of bs (String cp) of None \<Rightarrow> [] | Some m \<Rightarrow> m) \<noteq> []}"
  using assms
proof (induction ps arbitrary: U)
  case Nil
  then show ?case by simp
next
  case (Cons cp ps)
  let ?tk = "case map_of bs (String cp) of None \<Rightarrow> [] | Some m \<Rightarrow> m"
  from Cons.prems have usd: "Quote cp = ''USD''" and rest: "\<forall>cp \<in> set ps. Quote cp = ''USD''"
    by simp_all
  have conv: "convertPair sd vwap dt pmo bs U cp = Rates ?tk"
    using usd by (rule convertPair_USD)
  show ?case
  proof (cases "?tk = []")
    case True
    then have step: "resolvePairs sd vwap dt pmo bs (cp # ps) U unres
            = resolvePairs sd vwap dt pmo bs ps U unres"
      by (simp add: conv)
    have same: "Base ` {c \<in> set (cp # ps).
                      (case map_of bs (String c) of None \<Rightarrow> [] | Some m \<Rightarrow> m) \<noteq> []}
          = Base ` {c \<in> set ps.
                      (case map_of bs (String c) of None \<Rightarrow> [] | Some m \<Rightarrow> m) \<noteq> []}"
      using True by auto
    from Cons.IH [OF rest, of U] show ?thesis
      unfolding step same .
  next
    case False
    from addRates_Inr obtain r where r: "addRates (map_of U (Base cp)) ?tk = Inr r" by blast
    have step: "resolvePairs sd vwap dt pmo bs (cp # ps) U unres
            = resolvePairs sd vwap dt pmo bs ps (AList.update (Base cp) r U) unres"
      using False by (simp add: conv r)
    have more: "Base ` {c \<in> set (cp # ps).
                      (case map_of bs (String c) of None \<Rightarrow> [] | Some m \<Rightarrow> m) \<noteq> []}
          = insert (Base cp) (Base ` {c \<in> set ps.
                      (case map_of bs (String c) of None \<Rightarrow> [] | Some m \<Rightarrow> m) \<noteq> []})"
      using False by auto
    from Cons.IH [OF rest, of "AList.update (Base cp) r U"] show ?thesis
      unfolding step more by (auto simp: dom_update)
  qed
qed

lemma orderPairs_set: "set (orderPairs U ps) = set ps"
  unfolding orderPairs_def reorder_def reorder_fold by auto

lemma conversionPasses_USD:
  assumes "\<forall>cp \<in> set ps. Quote cp = ''USD''"
  shows "\<exists>U'. conversionPasses sd vwap dt pmo bs (Suc n) ps U = Inr U'
     \<and> fst ` set U' = fst ` set U
          \<union> Base ` {cp \<in> set ps.
                      (case map_of bs (String cp) of None \<Rightarrow> [] | Some m \<Rightarrow> m) \<noteq> []}"
proof -
  from assms have "\<forall>cp \<in> set (orderPairs U ps). Quote cp = ''USD''"
    by (simp add: orderPairs_set)
  from resolvePairs_USD [OF this, of sd vwap dt pmo bs U "[]"]
  obtain U' where "resolvePairs sd vwap dt pmo bs (orderPairs U ps) U [] = Inr (U', [])"
    and "fst ` set U' = fst ` set U
          \<union> Base ` {cp \<in> set (orderPairs U ps).
                      (case map_of bs (String cp) of None \<Rightarrow> [] | Some m \<Rightarrow> m) \<noteq> []}"
    by blast
  then show ?thesis by (simp add: orderPairs_set)
qed

lemma update_subset: "set (AList.update k v al) \<subseteq> insert (k, v) (set al)"
  by (induction al) auto

lemma update_set_cases:
  "(k, x) \<in> set al \<Longrightarrow>
   (k, x) \<in> set (AList.update p v al) \<or> (k = p \<and> map_of al p = Some x)"
  by (induction al) auto

lemma update_set_self: "(p, v) \<in> set (AList.update p v al)"
  by (induction al) auto

lemma group_inner:
  assumes "\<forall>s m. (s, m) \<in> set acc \<longrightarrow> m \<noteq> []"
  shows "(\<forall>s m. (s, m) \<in> set (fold (groupTicker providerName) inner acc) \<longrightarrow> m \<noteq> [])
     \<and> fst ` set (fold (groupTicker providerName) inner acc)
       = fst ` set acc \<union> fst ` set inner"
  using assms
proof (induction inner arbitrary: acc)
  case Nil
  then show ?case by simp
next
  case (Cons a inner)
  obtain symbol tickerPrice where a: "a = (symbol, tickerPrice)" by (cases a)
  define v where "v = AList.update providerName tickerPrice
                   (case map_of acc symbol of None \<Rightarrow> [] | Some m \<Rightarrow> m)"
  have vne: "v \<noteq> []" by (simp add: v_def)
  have sub: "set (AList.update symbol v acc) \<subseteq> insert (symbol, v) (set acc)"
    by (rule update_subset)
  have ne: "\<forall>s m. (s, m) \<in> set (AList.update symbol v acc) \<longrightarrow> m \<noteq> []"
  proof (intro allI impI)
    fix s m
    assume "(s, m) \<in> set (AList.update symbol v acc)"
    with sub have "(s, m) = (symbol, v) \<or> (s, m) \<in> set acc" by blast
    then show "m \<noteq> []"
    proof
      assume "(s, m) = (symbol, v)"
      with vne show ?thesis by simp
    next
      assume "(s, m) \<in> set acc"
      with Cons.prems show ?thesis by blast
    qed
  qed
  have step: "fold (groupTicker providerName) (a # inner) acc
         = fold (groupTicker providerName) inner (AList.update symbol v acc)"
    by (simp add: a v_def groupTicker_def)
  have keys: "fst ` set (AList.update symbol v acc) \<union> fst ` set inner
        = fst ` set acc \<union> fst ` set (a # inner)"
    by (auto simp: a dom_update)
  from Cons.IH [OF ne] show ?case
    unfolding step keys .
qed

lemma group_outer:
  assumes "\<forall>s m. (s, m) \<in> set acc \<longrightarrow> m \<noteq> []"
  shows "(\<forall>s m. (s, m) \<in> set (fold (\<lambda>(providerName, tickerPrices) providerPricesBySymbol.
             fold (groupTicker providerName) tickerPrices providerPricesBySymbol) pp acc)
            \<longrightarrow> m \<noteq> [])
     \<and> fst ` set (fold (\<lambda>(providerName, tickerPrices) providerPricesBySymbol.
             fold (groupTicker providerName) tickerPrices providerPricesBySymbol) pp acc)
       = fst ` set acc \<union> (\<Union>x \<in> set pp. fst ` set (snd x))"
  using assms
proof (induction pp arbitrary: acc)
  case Nil
  then show ?case by simp
next
  case (Cons a pp)
  obtain providerName tickerPrices where a: "a = (providerName, tickerPrices)" by (cases a)
  note inner = group_inner [OF Cons.prems, of providerName tickerPrices]
  have step: "fold (\<lambda>(providerName, tickerPrices) providerPricesBySymbol.
             fold (groupTicker providerName) tickerPrices providerPricesBySymbol) (a # pp) acc
      = fold (\<lambda>(providerName, tickerPrices) providerPricesBySymbol.
             fold (groupTicker providerName) tickerPrices providerPricesBySymbol) pp
          (fold (groupTicker providerName) tickerPrices acc)"
    by (simp add: a)
  have keys: "fst ` set acc \<union> fst ` set tickerPrices \<union> (\<Union>x \<in> set pp. fst ` set (snd x))
      = fst ` set acc \<union> (\<Union>x \<in> set (a # pp). fst ` set (snd x))"
    by (auto simp: a)
  from Cons.IH [OF inner [THEN conjunct1]] show ?case
    unfolding step inner [THEN conjunct2] keys .
qed

lemma groupBySymbol_keys:
  "(\<forall>s m. (s, m) \<in> set (groupBySymbol pp) \<longrightarrow> m \<noteq> [])
   \<and> fst ` set (groupBySymbol pp) = (\<Union>x \<in> set pp. fst ` set (snd x))"
proof -
  have "\<forall>s m. (s, m) \<in> set ([] :: (string, (Name, TickerPrice) gomap) gomap) \<longrightarrow> m \<noteq> []"
    by simp
  from group_outer [OF this, of pp] show ?thesis
    unfolding groupBySymbol_def by simp
qed

lemma groupBySymbol_tickers:
  "(case map_of (groupBySymbol pp) symbol of None \<Rightarrow> [] | Some m \<Rightarrow> m) \<noteq> []
   \<longleftrightarrow> (\<exists>x \<in> set pp. symbol \<in> fst ` set (snd x))"
proof -
  have "(case map_of (groupBySymbol pp) symbol of None \<Rightarrow> [] | Some m \<Rightarrow> m) \<noteq> []
        \<longleftrightarrow> symbol \<in> fst ` set (groupBySymbol pp)"
  proof (cases "map_of (groupBySymbol pp) symbol")
    case None
    then have "symbol \<notin> fst ` set (groupBySymbol pp)" by (simp add: map_of_eq_None_iff)
    with None show ?thesis by simp
  next
    case (Some m)
    then have in_set: "(symbol, m) \<in> set (groupBySymbol pp)" by (rule map_of_SomeD)
    with groupBySymbol_keys [of pp] have "m \<noteq> []" by blast
    moreover from in_set have "symbol \<in> fst ` set (groupBySymbol pp)" by force
    ultimately show ?thesis using Some by simp
  qed
  also have "\<dots> \<longleftrightarrow> (\<exists>x \<in> set pp. symbol \<in> fst ` set (snd x))"
    using groupBySymbol_keys [of pp] by auto
  finally show ?thesis .
qed

lemma addTicker_symbols:
  assumes "x \<in> set pp" and "symbol \<in> fst ` set (snd x)"
  shows "\<exists>x' \<in> set (addTicker p s t pp). symbol \<in> fst ` set (snd x')"
proof -
  obtain providerName tickerPrices where x: "x = (providerName, tickerPrices)" by (cases x)
  let ?v = "AList.update s t (case map_of pp p of None \<Rightarrow> [] | Some m \<Rightarrow> m)"
  from assms(1) have "(providerName, tickerPrices) \<in> set pp" by (simp add: x)
  from update_set_cases [OF this, of p ?v]
  show ?thesis
  proof
    assume "(providerName, tickerPrices) \<in> set (AList.update p ?v pp)"
    with assms(2) show ?thesis unfolding addTicker_def x by force
  next
    assume "providerName = p \<and> map_of pp p = Some tickerPrices"
    then have v: "?v = AList.update s t tickerPrices" by simp
    have "(p, ?v) \<in> set (AList.update p ?v pp)" by (rule update_set_self)
    moreover from assms(2) have "symbol \<in> fst ` set ?v" by (simp add: v x dom_update)
    ultimately show ?thesis unfolding addTicker_def by force
  qed
qed

lemma finalRates_keys:
  "fst ` set (fold (\<lambda>(denom, tickers) ratesDec.
             case finalRate sd vwap dt pmo denom tickers of
               None \<Rightarrow> ratesDec
             | Some rate \<Rightarrow> AList.update denom rate ratesDec) usdRates acc)
     \<subseteq> fst ` set acc \<union> fst ` set usdRates"
proof (induction usdRates arbitrary: acc)
  case Nil
  then show ?case by simp
next
  case (Cons a usdRates)
  obtain k tk where a: "a = (k, tk)" by (cases a)
  show ?case
    using Cons.IH [of "case finalRate sd vwap dt pmo k tk of
               None \<Rightarrow> acc
             | Some rate \<Rightarrow> AList.update k rate acc"]
    by (auto simp: a dom_update split: option.splits)
qed

lemma finalRates_map_of:
  "distinct (map fst usdRates) \<Longrightarrow>
   map_of (finalRates sd vwap dt pmo usdRates) b
     = (case map_of usdRates b of
          None \<Rightarrow> None
        | Some tickers \<Rightarrow> finalRate sd vwap dt pmo b tickers)"
  by (simp add: finalRates_def finalRates_fold split: option.splits)

lemma resolvePairs_USD_distinct:
  assumes "\<forall>cp \<in> set ps. Quote cp = ''USD''" and "distinct (map fst U)"
    and "resolvePairs sd vwap dt pmo bs ps U unres = Inr (V, un)"
  shows "distinct (map fst V)"
  using assms
proof (induction ps arbitrary: U)
  case Nil
  then show ?case by simp
next
  case (Cons cp ps)
  let ?tk = "case map_of bs (String cp) of None \<Rightarrow> [] | Some m \<Rightarrow> m"
  from Cons.prems(1) have usd: "Quote cp = ''USD''"
    and rest: "\<forall>cp \<in> set ps. Quote cp = ''USD''" by simp_all
  have conv: "convertPair sd vwap dt pmo bs U cp = Rates ?tk"
    using usd by (rule convertPair_USD)
  show ?case
  proof (cases "?tk = []")
    case True
    with Cons.prems(3) have "resolvePairs sd vwap dt pmo bs ps U unres = Inr (V, un)"
      by (simp add: conv)
    from Cons.IH [OF rest Cons.prems(2) this] show ?thesis .
  next
    case False
    from addRates_Inr obtain r where r: "addRates (map_of U (Base cp)) ?tk = Inr r" by blast
    with False Cons.prems(3)
    have "resolvePairs sd vwap dt pmo bs ps (AList.update (Base cp) r U) unres = Inr (V, un)"
      by (simp add: conv)
    moreover from Cons.prems(2) have "distinct (map fst (AList.update (Base cp) r U))"
      by (rule distinct_update)
    ultimately show ?thesis using Cons.IH [OF rest] by blast
  qed
qed

lemma resolvePairs_USD_agree:
  assumes "\<forall>cp \<in> set ps. Quote cp = ''USD''"
    and "\<forall>cp \<in> set ps. Base cp = b \<longrightarrow>
           (case map_of bs (String cp) of None \<Rightarrow> [] | Some m \<Rightarrow> m)
           = (case map_of bs' (String cp) of None \<Rightarrow> [] | Some m \<Rightarrow> m)"
    and "map_of U b = map_of U' b"
    and "resolvePairs sd vwap dt pmo bs ps U unres = Inr (V, un)"
    and "resolvePairs sd vwap dt pmo bs' ps U' unres' = Inr (V', un')"
  shows "map_of V b = map_of V' b"
  using assms
proof (induction ps arbitrary: U U')
  case Nil
  then show ?case by simp
next
  case (Cons cp ps)
  let ?tk = "case map_of bs (String cp) of None \<Rightarrow> [] | Some m \<Rightarrow> m"
  let ?tk' = "case map_of bs' (String cp) of None \<Rightarrow> [] | Some m \<Rightarrow> m"
  from Cons.prems(1) have usd: "Quote cp = ''USD''"
    and rest: "\<forall>cp \<in> set ps. Quote cp = ''USD''" by simp_all
  from Cons.prems(2) have same: "Base cp = b \<Longrightarrow> ?tk = ?tk'"
    and rest2: "\<forall>cp \<in> set ps. Base cp = b \<longrightarrow>
           (case map_of bs (String cp) of None \<Rightarrow> [] | Some m \<Rightarrow> m)
           = (case map_of bs' (String cp) of None \<Rightarrow> [] | Some m \<Rightarrow> m)"
    by simp_all
  have conv: "convertPair sd vwap dt pmo bs U cp = Rates ?tk"
    using usd by (rule convertPair_USD)
  have conv': "convertPair sd vwap dt pmo bs' U' cp = Rates ?tk'"
    using usd by (rule convertPair_USD)
  from addRates_Inr obtain r where r: "addRates (map_of U (Base cp)) ?tk = Inr r" by blast
  from addRates_Inr obtain r' where r': "addRates (map_of U' (Base cp)) ?tk' = Inr r'"
    by blast
  define U1 where "U1 = (if ?tk = [] then U else AList.update (Base cp) r U)"
  define U1' where "U1' = (if ?tk' = [] then U' else AList.update (Base cp) r' U')"
  from Cons.prems(4) have run: "resolvePairs sd vwap dt pmo bs ps U1 unres = Inr (V, un)"
    by (simp add: conv r U1_def split: if_splits)
  from Cons.prems(5) have run': "resolvePairs sd vwap dt pmo bs' ps U1' unres' = Inr (V', un')"
    by (simp add: conv' r' U1'_def split: if_splits)
  have "map_of U1 b = map_of U1' b"
  proof (cases "Base cp = b")
    case True
    with same have tk: "?tk = ?tk'" by simp
    with r r' Cons.prems(3) True have "r = r'" by simp
    with tk Cons.prems(3) show ?thesis
      by (simp add: U1_def U1'_def update_conv')
  next
    case False
    with Cons.prems(3) show ?thesis
      by (simp add: U1_def U1'_def update_conv')
  qed
  from Cons.IH [OF rest rest2 this run run'] show ?case .
qed

lemma groupTicker_other:
  "fst entry \<noteq> s \<Longrightarrow> map_of (groupTicker p entry acc) s = map_of acc s"
  by (cases entry) (simp add: groupTicker_def update_conv')

lemma groupTicker_cong:
  assumes "map_of acc s = map_of acc' s"
  shows "map_of (groupTicker p entry acc) s = map_of (groupTicker p entry acc') s"
proof (cases entry)
  case (Pair symbol tickerPrice)
  show ?thesis
  proof (cases "symbol = s")
    case True
    with assms Pair show ?thesis by (simp add: groupTicker_def update_conv')
  next
    case False
    with assms Pair show ?thesis by (simp add: groupTicker_def update_conv')
  qed
qed

lemma group_inner_cong:
  "map_of acc s = map_of acc' s \<Longrightarrow>
   map_of (fold (groupTicker p) inner acc) s = map_of (fold (groupTicker p) inner acc') s"
proof (induction inner arbitrary: acc acc')
  case Nil
  then show ?case by simp
next
  case (Cons a inner)
  from Cons.prems have "map_of (groupTicker p a acc) s = map_of (groupTicker p a acc') s"
    by (rule groupTicker_cong)
  from Cons.IH [OF this] show ?case by simp
qed

lemma group_inner_filter:
  "map_of (fold (groupTicker p) inner acc) s
     = map_of (fold (groupTicker p) (filter (\<lambda>x. fst x = s) inner) acc) s"
proof (induction inner arbitrary: acc)
  case Nil
  then show ?case by simp
next
  case (Cons a inner)
  show ?case
  proof (cases "fst a = s")
    case True
    with Cons.IH [of "groupTicker p a acc"] show ?thesis by simp
  next
    case False
    then have "map_of (groupTicker p a acc) s = map_of acc s"
      by (rule groupTicker_other)
    from group_inner_cong [OF this]
    have "map_of (fold (groupTicker p) (filter (\<lambda>x. fst x = s) inner) (groupTicker p a acc)) s
        = map_of (fold (groupTicker p) (filter (\<lambda>x. fst x = s) inner) acc) s" .
    with Cons.IH [of "groupTicker p a acc"] False show ?thesis by simp
  qed
qed

lemma group_inner_agree:
  assumes "map_of acc s = map_of acc' s"
    and "filter (\<lambda>x. fst x = s) inner = filter (\<lambda>x. fst x = s) inner'"
  shows "map_of (fold (groupTicker p) inner acc) s
           = map_of (fold (groupTicker p) inner' acc') s"
proof -
  have "map_of (fold (groupTicker p) inner acc) s
      = map_of (fold (groupTicker p) (filter (\<lambda>x. fst x = s) inner') acc) s"
    using group_inner_filter [of p inner acc s] assms(2) by simp
  also have "\<dots> = map_of (fold (groupTicker p) (filter (\<lambda>x. fst x = s) inner') acc') s"
    using assms(1) by (rule group_inner_cong)
  also have "\<dots> = map_of (fold (groupTicker p) inner' acc') s"
    using group_inner_filter [of p inner' acc' s] by simp
  finally show ?thesis .
qed

lemma group_outer_cong:
  "map_of acc s = map_of acc' s \<Longrightarrow>
   map_of (fold (\<lambda>(providerName, tickerPrices) providerPricesBySymbol.
             fold (groupTicker providerName) tickerPrices providerPricesBySymbol) pp acc) s
   = map_of (fold (\<lambda>(providerName, tickerPrices) providerPricesBySymbol.
             fold (groupTicker providerName) tickerPrices providerPricesBySymbol) pp acc') s"
proof (induction pp arbitrary: acc acc')
  case Nil
  then show ?case by simp
next
  case (Cons a pp)
  obtain providerName tickerPrices where a: "a = (providerName, tickerPrices)" by (cases a)
  from Cons.prems
  have "map_of (fold (groupTicker providerName) tickerPrices acc) s
      = map_of (fold (groupTicker providerName) tickerPrices acc') s"
    by (rule group_inner_cong)
  from Cons.IH [OF this] show ?case by (simp add: a)
qed

lemma group_outer_update:
  assumes "map_of acc s = map_of acc' s"
    and "filter (\<lambda>x. fst x = s) v
           = filter (\<lambda>x. fst x = s) (case map_of pp p of None \<Rightarrow> [] | Some m \<Rightarrow> m)"
  shows "map_of (fold (\<lambda>(providerName, tickerPrices) providerPricesBySymbol.
             fold (groupTicker providerName) tickerPrices providerPricesBySymbol)
           (AList.update p v pp) acc) s
   = map_of (fold (\<lambda>(providerName, tickerPrices) providerPricesBySymbol.
             fold (groupTicker providerName) tickerPrices providerPricesBySymbol) pp acc') s"
  using assms
proof (induction pp arbitrary: acc acc')
  case Nil
  from Nil.prems(2) have "filter (\<lambda>x. fst x = s) v = filter (\<lambda>x. fst x = s) []" by simp
  from group_inner_agree [OF Nil.prems(1) this, of p] show ?case by simp
next
  case (Cons a pp)
  obtain providerName tickerPrices where a: "a = (providerName, tickerPrices)" by (cases a)
  show ?case
  proof (cases "providerName = p")
    case True
    with Cons.prems(2) a
    have "filter (\<lambda>x. fst x = s) v = filter (\<lambda>x. fst x = s) tickerPrices" by simp
    from group_inner_agree [OF Cons.prems(1) this, of p]
    have "map_of (fold (groupTicker p) v acc) s
        = map_of (fold (groupTicker p) tickerPrices acc') s" .
    from group_outer_cong [OF this, of pp] show ?thesis by (simp add: a True)
  next
    case False
    from Cons.prems(1)
    have step: "map_of (fold (groupTicker providerName) tickerPrices acc) s
        = map_of (fold (groupTicker providerName) tickerPrices acc') s"
      by (rule group_inner_cong)
    from Cons.prems(2) a False
    have "filter (\<lambda>x. fst x = s) v
           = filter (\<lambda>x. fst x = s) (case map_of pp p of None \<Rightarrow> [] | Some m \<Rightarrow> m)"
      by simp
    from Cons.IH [OF step this] show ?thesis using False by (simp add: a)
  qed
qed

lemma filter_update_other:
  "s \<noteq> k \<Longrightarrow> filter (\<lambda>x. fst x = s) (AList.update k v al) = filter (\<lambda>x. fst x = s) al"
  by (induction al) auto

lemma groupBySymbol_addTicker_other:
  assumes "s \<noteq> symbol"
  shows "map_of (groupBySymbol (addTicker providerName symbol t pp)) s
           = map_of (groupBySymbol pp) s"
  unfolding groupBySymbol_def addTicker_def
  by (rule group_outer_update) (simp_all add: filter_update_other [OF assms])

lemma conversionPasses_USD_run:
  assumes "\<forall>cp \<in> set ps. Quote cp = ''USD''"
  shows "\<exists>V. resolvePairs sd vwap dt pmo bs (orderPairs U ps) U [] = Inr (V, [])
     \<and> conversionPasses sd vwap dt pmo bs (Suc n) ps U = Inr V
     \<and> fst ` set V = fst ` set U
          \<union> Base ` {cp \<in> set ps.
                      (case map_of bs (String cp) of None \<Rightarrow> [] | Some m \<Rightarrow> m) \<noteq> []}"
proof -
  from assms have "\<forall>cp \<in> set (orderPairs U ps). Quote cp = ''USD''"
    by (simp add: orderPairs_set)
  from resolvePairs_USD [OF this, of sd vwap dt pmo bs U "[]"]
  obtain V where "resolvePairs sd vwap dt pmo bs (orderPairs U ps) U [] = Inr (V, [])"
    and "fst ` set V = fst ` set U
          \<union> Base ` {cp \<in> set (orderPairs U ps).
                      (case map_of bs (String cp) of None \<Rightarrow> [] | Some m \<Rightarrow> m) \<noteq> []}"
    by blast
  then show ?thesis by (simp add: orderPairs_set)
qed

lemma publishedRate_USD:
  assumes usd: "\<forall>cp \<in> set (collectPairs providerPairs). Quote cp = ''USD''"
    and run: "resolvePairs sd vwap dt pmo (groupBySymbol pp)
                (orderPairs [] (collectPairs providerPairs)) [] [] = Inr (V, [])"
    and res: "resolveUSDRates sd vwap pp providerPairs dt pmo = Inr V"
    and keys: "fst ` set V = Base ` {cp \<in> set (collectPairs providerPairs).
                  (case map_of (groupBySymbol pp) (String cp) of None \<Rightarrow> [] | Some m \<Rightarrow> m)
                  \<noteq> []}"
  shows "publishedRate (convertTickersToUSD sd vwap pp providerPairs dt pmo) b
           = (case map_of V b of
                None \<Rightarrow> None
              | Some tickers \<Rightarrow> finalRate sd vwap dt pmo b tickers)"
proof (cases "pp = []")
  case True
  have "fst ` set V = {}"
    unfolding keys groupBySymbol_tickers using True by simp
  then have "map_of V b = None" by (simp add: map_of_eq_None_iff)
  with True show ?thesis by (simp add: convertTickersToUSD_def publishedRate_def)
next
  case False
  from usd have "\<forall>cp \<in> set (orderPairs [] (collectPairs providerPairs)). Quote cp = ''USD''"
    by (simp add: orderPairs_set)
  from resolvePairs_USD_distinct [OF this _ run] have "distinct (map fst V)" by simp
  from finalRates_map_of [OF this] False show ?thesis
    by (simp add: convertTickersToUSD_def publishedRate_def res)
qed

text \<open>
  When every configured pair is quoted in USD no conversion runs, so the resolver fails
  neither on an input nor on the input with one more provider ticker; every base with an
  entry in the table of USD rates for the input has one for the extended input; and a
  base that has no pair with the symbol of the added ticker keeps its rate.
\<close>

lemma usd_quoted_rates_monotone:
  assumes "\<forall>cp \<in> set (collectPairs providerPairs). Quote cp = ''USD''"
  shows "\<exists>usdRates usdRates'.
           resolveUSDRates sd vwap providerPrices providerPairs deviationThresholds
               providerMinOverrides = Inr usdRates
         \<and> resolveUSDRates sd vwap (addTicker providerName symbol t providerPrices)
               providerPairs deviationThresholds providerMinOverrides = Inr usdRates'
         \<and> fst ` set usdRates \<subseteq> fst ` set usdRates'
         \<and> fst ` set (finalRates sd vwap deviationThresholds providerMinOverrides usdRates')
             \<subseteq> fst ` set usdRates'
         \<and> (\<forall>b. (\<forall>cp \<in> set (collectPairs providerPairs).
                     Base cp = b \<longrightarrow> String cp \<noteq> symbol) \<longrightarrow>
                publishedRate
                  (convertTickersToUSD sd vwap (addTicker providerName symbol t providerPrices)
                     providerPairs deviationThresholds providerMinOverrides) b
                = publishedRate
                    (convertTickersToUSD sd vwap providerPrices providerPairs
                       deviationThresholds providerMinOverrides) b)"
proof -
  let ?ps = "collectPairs providerPairs"
  let ?pp' = "addTicker providerName symbol t providerPrices"
  let ?bs = "groupBySymbol providerPrices"
  let ?bs' = "groupBySymbol ?pp'"
  from conversionPasses_USD_run [OF assms, of sd vwap deviationThresholds
      providerMinOverrides ?bs "[]" 5]
  obtain U where run: "resolvePairs sd vwap deviationThresholds providerMinOverrides ?bs
                (orderPairs [] ?ps) [] [] = Inr (U, [])"
    and U: "resolveUSDRates sd vwap providerPrices providerPairs deviationThresholds
               providerMinOverrides = Inr U"
    and keys: "fst ` set U = Base ` {cp \<in> set ?ps.
                  (case map_of ?bs (String cp) of None \<Rightarrow> [] | Some m \<Rightarrow> m) \<noteq> []}"
    by (auto simp: resolveUSDRates_def maxConversions_def eval_nat_numeral)
  from conversionPasses_USD_run [OF assms, of sd vwap deviationThresholds
      providerMinOverrides ?bs' "[]" 5]
  obtain U' where run': "resolvePairs sd vwap deviationThresholds providerMinOverrides ?bs'
                (orderPairs [] ?ps) [] [] = Inr (U', [])"
    and U': "resolveUSDRates sd vwap ?pp' providerPairs deviationThresholds
               providerMinOverrides = Inr U'"
    and keys': "fst ` set U' = Base ` {cp \<in> set ?ps.
                  (case map_of ?bs' (String cp) of None \<Rightarrow> [] | Some m \<Rightarrow> m) \<noteq> []}"
    by (auto simp: resolveUSDRates_def maxConversions_def eval_nat_numeral)
  have sub: "fst ` set U \<subseteq> fst ` set U'"
    unfolding keys keys' groupBySymbol_tickers
    using addTicker_symbols [of _ providerPrices _ providerName symbol t] by blast
  have out: "fst ` set (finalRates sd vwap deviationThresholds providerMinOverrides U')
             \<subseteq> fst ` set U'"
    using finalRates_keys [of sd vwap deviationThresholds providerMinOverrides U' "[]"]
    by (simp add: finalRates_def)
  have other: "publishedRate
                  (convertTickersToUSD sd vwap ?pp' providerPairs deviationThresholds
                     providerMinOverrides) b
                = publishedRate
                    (convertTickersToUSD sd vwap providerPrices providerPairs
                       deviationThresholds providerMinOverrides) b"
    if b: "\<forall>cp \<in> set ?ps. Base cp = b \<longrightarrow> String cp \<noteq> symbol" for b
  proof -
    from assms have usd: "\<forall>cp \<in> set (orderPairs [] ?ps). Quote cp = ''USD''"
      by (simp add: orderPairs_set)
    from b have same: "\<forall>cp \<in> set (orderPairs [] ?ps). Base cp = b \<longrightarrow>
           (case map_of ?bs (String cp) of None \<Rightarrow> [] | Some m \<Rightarrow> m)
           = (case map_of ?bs' (String cp) of None \<Rightarrow> [] | Some m \<Rightarrow> m)"
      by (simp add: orderPairs_set groupBySymbol_addTicker_other)
    have "map_of U b = map_of U' b"
      by (rule resolvePairs_USD_agree [OF usd same _ run run']) simp
    with publishedRate_USD [OF assms run U keys, of b]
      publishedRate_USD [OF assms run' U' keys', of b]
    show ?thesis by simp
  qed
  from U U' sub out other show ?thesis by blast
qed

lemma convertPair_indep:
  assumes "\<not> dep (Base cp)"
    and "(String cp = s \<or> dep (Quote cp)) \<longrightarrow> dep (Base cp)"
    and "\<forall>sym. sym \<noteq> s \<longrightarrow> map_of bs sym = map_of bs2 sym"
    and "\<forall>b. \<not> dep b \<longrightarrow> map_of U b = map_of U2 b"
  shows "convertPair sd vwap dt pmo bs U cp = convertPair sd vwap dt pmo bs2 U2 cp"
proof -
  from assms have 1: "map_of bs (String cp) = map_of bs2 (String cp)" by blast
  from assms have 2: "map_of U (Quote cp) = map_of U2 (Quote cp)" by blast
  show ?thesis unfolding convertPair_def Let_def 1 2 by (rule refl)
qed

lemma resolvePairs_project:
  assumes "resolvePairs sd vwap dt pmo bs ps U unres = Inr (V, un)"
    and "\<forall>cp \<in> set ps. (String cp = s \<or> dep (Quote cp)) \<longrightarrow> dep (Base cp)"
    and "\<forall>sym. sym \<noteq> s \<longrightarrow> map_of bs sym = map_of bs2 sym"
    and "\<forall>b. \<not> dep b \<longrightarrow> map_of U b = map_of U2 b"
  shows "\<exists>V2. resolvePairs sd vwap dt pmo bs2 (filter (\<lambda>cp. \<not> dep (Base cp)) ps) U2
                 (filter (\<lambda>cp. \<not> dep (Base cp)) unres)
               = Inr (V2, filter (\<lambda>cp. \<not> dep (Base cp)) un)
             \<and> (\<forall>b. \<not> dep b \<longrightarrow> map_of V b = map_of V2 b)"
  using assms(1,2,4)
proof (induction ps arbitrary: U U2 unres)
  case Nil
  then show ?case by simp
next
  case (Cons cp ps)
  from Cons.prems(2) have cl: "(String cp = s \<or> dep (Quote cp)) \<longrightarrow> dep (Base cp)"
    and rest: "\<forall>cp \<in> set ps. (String cp = s \<or> dep (Quote cp)) \<longrightarrow> dep (Base cp)"
    by simp_all
  note agree = Cons.prems(3)
  show ?case
  proof (cases "dep (Base cp)")
    case True
    show ?thesis
    proof (cases "convertPair sd vwap dt pmo bs U cp")
      case Parked
      with Cons.prems(1)
      have run: "resolvePairs sd vwap dt pmo bs ps U (unres @ [cp]) = Inr (V, un)" by simp
      from Cons.IH [OF run rest agree] True show ?thesis by simp
    next
      case (Failed e)
      with Cons.prems(1) show ?thesis by simp
    next
      case (Rates newRates)
      show ?thesis
      proof (cases "length newRates > 0")
        case False
        with Rates Cons.prems(1)
        have run: "resolvePairs sd vwap dt pmo bs ps U unres = Inr (V, un)" by simp
        from Cons.IH [OF run rest agree] True show ?thesis by simp
      next
        case nonempty: True
        from addRates_Inr obtain r where r: "addRates (map_of U (Base cp)) newRates = Inr r"
          by blast
        with Rates nonempty Cons.prems(1)
        have run: "resolvePairs sd vwap dt pmo bs ps (AList.update (Base cp) r U) unres
                     = Inr (V, un)" by simp
        have agree': "\<forall>b. \<not> dep b \<longrightarrow> map_of (AList.update (Base cp) r U) b = map_of U2 b"
          using agree True by (auto simp: update_conv')
        from Cons.IH [OF run rest agree'] True show ?thesis by simp
      qed
    qed
  next
    case False
    have same: "convertPair sd vwap dt pmo bs2 U2 cp = convertPair sd vwap dt pmo bs U cp"
      using convertPair_indep [OF False cl assms(3) agree] by simp
    from agree False have base: "map_of U2 (Base cp) = map_of U (Base cp)" by simp
    show ?thesis
    proof (cases "convertPair sd vwap dt pmo bs U cp")
      case Parked
      with Cons.prems(1)
      have run: "resolvePairs sd vwap dt pmo bs ps U (unres @ [cp]) = Inr (V, un)" by simp
      from Cons.IH [OF run rest agree] False Parked same show ?thesis by simp
    next
      case (Failed e)
      with Cons.prems(1) show ?thesis by simp
    next
      case (Rates newRates)
      show ?thesis
      proof (cases "length newRates > 0")
        case empty: False
        with Rates Cons.prems(1)
        have run: "resolvePairs sd vwap dt pmo bs ps U unres = Inr (V, un)" by simp
        from Cons.IH [OF run rest agree] False Rates same empty show ?thesis by simp
      next
        case nonempty: True
        from addRates_Inr obtain r where r: "addRates (map_of U (Base cp)) newRates = Inr r"
          by blast
        with Rates nonempty Cons.prems(1)
        have run: "resolvePairs sd vwap dt pmo bs ps (AList.update (Base cp) r U) unres
                     = Inr (V, un)" by simp
        have agree': "\<forall>b. \<not> dep b \<longrightarrow> map_of (AList.update (Base cp) r U) b
                        = map_of (AList.update (Base cp) r U2) b"
          using agree by (auto simp: update_conv')
        from Cons.IH [OF run rest agree'] False Rates same nonempty r base
        show ?thesis by simp
      qed
    qed
  qed
qed

lemma resolvePairs_parked:
  assumes "resolvePairs sd vwap dt pmo bs ps U unres = Inr (V, un)"
  shows "\<exists>parked. un = unres @ parked \<and> set parked \<subseteq> set ps \<and> length parked \<le> length ps
        \<and> (length parked = length ps \<longrightarrow>
             V = U \<and> parked = ps
             \<and> (\<forall>cp \<in> set ps. convertPair sd vwap dt pmo bs U cp = Parked))"
  using assms
proof (induction ps arbitrary: U unres)
  case Nil
  then show ?case by simp
next
  case (Cons cp ps)
  show ?case
  proof (cases "convertPair sd vwap dt pmo bs U cp")
    case Parked
    with Cons.prems
    have run: "resolvePairs sd vwap dt pmo bs ps U (unres @ [cp]) = Inr (V, un)" by simp
    from Cons.IH [OF run] obtain parked where p: "un = (unres @ [cp]) @ parked"
      "set parked \<subseteq> set ps" "length parked \<le> length ps"
      "length parked = length ps \<longrightarrow>
             V = U \<and> parked = ps
             \<and> (\<forall>cp \<in> set ps. convertPair sd vwap dt pmo bs U cp = Parked)"
      by blast
    show ?thesis
      by (rule exI [of _ "cp # parked"]) (use p Parked in auto)
  next
    case (Failed e)
    with Cons.prems show ?thesis by simp
  next
    case (Rates newRates)
    show ?thesis
    proof (cases "length newRates > 0")
      case False
      with Rates Cons.prems
      have run: "resolvePairs sd vwap dt pmo bs ps U unres = Inr (V, un)" by simp
      from Cons.IH [OF run] obtain parked where p: "un = unres @ parked"
        "set parked \<subseteq> set ps" "length parked \<le> length ps"
        by blast
      show ?thesis
        by (rule exI [of _ parked]) (use p in auto)
    next
      case True
      from addRates_Inr obtain r where r: "addRates (map_of U (Base cp)) newRates = Inr r"
        by blast
      with Rates True Cons.prems
      have run: "resolvePairs sd vwap dt pmo bs ps (AList.update (Base cp) r U) unres
                   = Inr (V, un)" by simp
      from Cons.IH [OF run] obtain parked where p: "un = unres @ parked"
        "set parked \<subseteq> set ps" "length parked \<le> length ps"
        by blast
      show ?thesis
        by (rule exI [of _ parked]) (use p in auto)
    qed
  qed
qed

lemma resolvePairs_all_parked:
  assumes "\<forall>cp \<in> set ps. convertPair sd vwap dt pmo bs U cp = Parked"
  shows "resolvePairs sd vwap dt pmo bs ps U unres = Inr (U, unres @ ps)"
  using assms by (induction ps arbitrary: unres) simp_all

lemma conversionPasses_stuck:
  assumes "\<forall>cp \<in> set ps. convertPair sd vwap dt pmo bs U cp = Parked"
  shows "conversionPasses sd vwap dt pmo bs n ps U = Inr U"
proof (cases n)
  case 0
  then show ?thesis by simp
next
  case (Suc k)
  from assms have "\<forall>cp \<in> set (orderPairs U ps). convertPair sd vwap dt pmo bs U cp = Parked"
    by (simp add: orderPairs_set)
  from resolvePairs_all_parked [OF this, of "[]"] Suc show ?thesis by simp
qed

lemma orderPairs_filter:
  assumes "\<forall>b. \<not> dep b \<longrightarrow> map_of U b = map_of U2 b"
  shows "filter (\<lambda>cp. \<not> dep (Base cp)) (orderPairs U ps)
           = orderPairs U2 (filter (\<lambda>cp. \<not> dep (Base cp)) ps)"
proof -
  have 1: "filter (\<lambda>cp. \<not> dep (Base cp)) (filter (\<lambda>pair. map_of U (Base pair) \<noteq> None) xs)
         = filter (\<lambda>pair. map_of U2 (Base pair) \<noteq> None) (filter (\<lambda>cp. \<not> dep (Base cp)) xs)"
    for xs
    unfolding filter_filter using assms by (intro filter_cong) auto
  have 2: "filter (\<lambda>cp. \<not> dep (Base cp)) (filter (\<lambda>pair. map_of U (Base pair) = None) xs)
         = filter (\<lambda>pair. map_of U2 (Base pair) = None) (filter (\<lambda>cp. \<not> dep (Base cp)) xs)"
    for xs
    unfolding filter_filter using assms by (intro filter_cong) auto
  show ?thesis
    unfolding orderPairs_def reorder_def reorder_fold filter_append rev_filter [symmetric]
      filter.simps 1 2 filter_sort
    by (rule refl)
qed


lemma conversionPasses_project:
  assumes "conversionPasses sd vwap dt pmo bs n ps U = Inr W"
    and "\<forall>cp \<in> set ps. (String cp = s \<or> dep (Quote cp)) \<longrightarrow> dep (Base cp)"
    and "\<forall>sym. sym \<noteq> s \<longrightarrow> map_of bs sym = map_of bs2 sym"
    and "\<forall>b. \<not> dep b \<longrightarrow> map_of U b = map_of U2 b"
  shows "\<exists>W2. conversionPasses sd vwap dt pmo bs2 n (filter (\<lambda>cp. \<not> dep (Base cp)) ps) U2
                 = Inr W2
             \<and> (\<forall>b. \<not> dep b \<longrightarrow> map_of W b = map_of W2 b)"
  using assms(1,2,4)
proof (induction n arbitrary: ps U U2)
  case 0
  then show ?case by simp
next
  case (Suc n)
  let ?I = "\<lambda>cp. \<not> dep (Base cp)"
  let ?o = "orderPairs U ps"
  let ?o2 = "orderPairs U2 (filter ?I ps)"
  note agree = Suc.prems(3)
  have o2: "filter ?I ?o = ?o2" using agree by (rule orderPairs_filter)
  from Suc.prems(1) obtain V un
    where run: "resolvePairs sd vwap dt pmo bs ?o U [] = Inr (V, un)"
      and rest: "(if length un = 0 \<or> length un = length ?o then Inr V
                  else conversionPasses sd vwap dt pmo bs n un V) = Inr W"
    by (auto split: sum.splits)
  from Suc.prems(2)
  have cl: "\<forall>cp \<in> set ?o. (String cp = s \<or> dep (Quote cp)) \<longrightarrow> dep (Base cp)"
    by (simp add: orderPairs_set)
  from resolvePairs_project [OF run cl assms(3) agree] obtain V2
    where run2: "resolvePairs sd vwap dt pmo bs2 ?o2 U2 [] = Inr (V2, filter ?I un)"
      and agreeV: "\<forall>b. \<not> dep b \<longrightarrow> map_of V b = map_of V2 b"
    unfolding o2 by auto
  from resolvePairs_parked [OF run]
  have sub: "set un \<subseteq> set ps" and full: "length un = length ?o \<longrightarrow> un = ?o"
    by (auto simp: orderPairs_set)
  from resolvePairs_parked [OF run2]
  have full2: "length (filter ?I un) = length ?o2 \<longrightarrow>
                 V2 = U2 \<and> filter ?I un = ?o2
                 \<and> (\<forall>cp \<in> set ?o2. convertPair sd vwap dt pmo bs2 U2 cp = Parked)"
    by auto
  have pass2: "conversionPasses sd vwap dt pmo bs2 (Suc n) (filter ?I ps) U2
      = (if length (filter ?I un) = 0 \<or> length (filter ?I un) = length ?o2 then Inr V2
         else conversionPasses sd vwap dt pmo bs2 n (filter ?I un) V2)"
    by (simp add: run2)
  show ?case
  proof (cases "length un = 0 \<or> length un = length ?o")
    case True
    with rest have W: "W = V" by simp
    from True full o2 have "length (filter ?I un) = 0 \<or> length (filter ?I un) = length ?o2"
      by auto
    with pass2 W agreeV show ?thesis by simp
  next
    case False
    with rest have cont: "conversionPasses sd vwap dt pmo bs n un V = Inr W" by simp
    from Suc.prems(2) sub
    have clun: "\<forall>cp \<in> set un. (String cp = s \<or> dep (Quote cp)) \<longrightarrow> dep (Base cp)"
      by blast
    from Suc.IH [OF cont clun agreeV] obtain W2
      where W2: "conversionPasses sd vwap dt pmo bs2 n (filter ?I un) V2 = Inr W2"
        and agreeW: "\<forall>b. \<not> dep b \<longrightarrow> map_of W b = map_of W2 b"
      by blast
    show ?thesis
    proof (cases "length (filter ?I un) = 0 \<or> length (filter ?I un) = length ?o2")
      case stop: True
      have "\<forall>cp \<in> set (filter ?I un). convertPair sd vwap dt pmo bs2 V2 cp = Parked"
      proof (cases "length (filter ?I un) = 0")
        case True
        then show ?thesis by simp
      next
        case False
        with stop full2 show ?thesis by simp
      qed
      from conversionPasses_stuck [OF this, of n] W2 have "W2 = V2" by simp
      with stop pass2 agreeW show ?thesis by simp
    next
      case go: False
      with pass2 W2 agreeW show ?thesis by simp
    qed
  qed
qed

lemma resolvePairs_distinct:
  assumes "distinct (map fst U)"
    and "resolvePairs sd vwap dt pmo bs ps U unres = Inr (V, un)"
  shows "distinct (map fst V)"
  using assms
proof (induction ps arbitrary: U unres)
  case Nil
  then show ?case by simp
next
  case (Cons cp ps)
  show ?case
  proof (cases "convertPair sd vwap dt pmo bs U cp")
    case Parked
    with Cons.prems(2)
    have "resolvePairs sd vwap dt pmo bs ps U (unres @ [cp]) = Inr (V, un)" by simp
    from Cons.IH [OF Cons.prems(1) this] show ?thesis .
  next
    case (Failed e)
    with Cons.prems(2) show ?thesis by simp
  next
    case (Rates newRates)
    show ?thesis
    proof (cases "length newRates > 0")
      case False
      with Rates Cons.prems(2)
      have "resolvePairs sd vwap dt pmo bs ps U unres = Inr (V, un)" by simp
      from Cons.IH [OF Cons.prems(1) this] show ?thesis .
    next
      case True
      from addRates_Inr obtain r where r: "addRates (map_of U (Base cp)) newRates = Inr r"
        by blast
      with Rates True Cons.prems(2)
      have run: "resolvePairs sd vwap dt pmo bs ps (AList.update (Base cp) r U) unres
                   = Inr (V, un)" by simp
      from Cons.prems(1) have "distinct (map fst (AList.update (Base cp) r U))"
        by (rule distinct_update)
      from Cons.IH [OF this run] show ?thesis .
    qed
  qed
qed

lemma conversionPasses_distinct:
  assumes "distinct (map fst U)"
    and "conversionPasses sd vwap dt pmo bs n ps U = Inr W"
  shows "distinct (map fst W)"
  using assms
proof (induction n arbitrary: ps U)
  case 0
  then show ?case by simp
next
  case (Suc n)
  from Suc.prems(2) obtain V un
    where run: "resolvePairs sd vwap dt pmo bs (orderPairs U ps) U [] = Inr (V, un)"
      and rest: "(if length un = 0 \<or> length un = length (orderPairs U ps) then Inr V
                  else conversionPasses sd vwap dt pmo bs n un V) = Inr W"
    by (auto split: sum.splits)
  from resolvePairs_distinct [OF Suc.prems(1) run] have V: "distinct (map fst V)" .
  show ?case
  proof (cases "length un = 0 \<or> length un = length (orderPairs U ps)")
    case True
    with rest V show ?thesis by simp
  next
    case False
    with rest have "conversionPasses sd vwap dt pmo bs n un V = Inr W" by simp
    from Suc.IH [OF V this] show ?thesis .
  qed
qed

lemma publishedRate_resolved:
  assumes "resolveUSDRates sd vwap pp providerPairs dt pmo = Inr W" and "pp \<noteq> []"
  shows "publishedRate (convertTickersToUSD sd vwap pp providerPairs dt pmo) b
           = (case map_of W b of
                None \<Rightarrow> None
              | Some tickers \<Rightarrow> finalRate sd vwap dt pmo b tickers)"
proof -
  from assms(1) have "distinct (map fst W)"
    unfolding resolveUSDRates_def by (rule conversionPasses_distinct [rotated]) simp
  from finalRates_map_of [OF this] assms show ?thesis
    by (simp add: convertTickersToUSD_def publishedRate_def)
qed

lemma quotedReports_before:
  "convertTickersToUSD StandardDeviation ComputeVWAP quotedReports crossPairs halfSigma
       [(''W'', 1), (''Y'', 1)]
     = Inr (Some [(''W'', 5 * 10 ^ 18), (''X'', 2 * 10 ^ 18), (''Y'', 2 * 10 ^ 18)])"
  by code_simp

lemma quotedReports_after:
  "convertTickersToUSD StandardDeviation ComputeVWAP
       (addTicker ''D'' ''XUSD'' (mkTicker (6 * 10 ^ 18) (10 ^ 18)) quotedReports)
       crossPairs halfSigma [(''W'', 1), (''Y'', 1)]
     = Inl NoTickers"
  by code_simp

lemma convertedReports_before:
  "convertTickersToUSD StandardDeviation ComputeVWAP convertedReports crossPairs
       [(''Y'', 5 * 10 ^ 17)] [(''W'', 1), (''X'', 1)]
     = Inr (Some [(''W'', 5 * 10 ^ 18), (''X'', 2 * 10 ^ 18), (''Y'', 2 * 10 ^ 18)])"
  by code_simp

lemma convertedReports_after:
  "convertTickersToUSD StandardDeviation ComputeVWAP
       (addTicker ''D'' ''XUSD'' (mkTicker (10 * 10 ^ 18) (10 ^ 18)) convertedReports)
       crossPairs [(''Y'', 5 * 10 ^ 17)] [(''W'', 1), (''X'', 1)]
     = Inr (Some [(''W'', 5 * 10 ^ 18), (''X'', 6 * 10 ^ 18)])"
  by code_simp

text \<open>
  Claim C9, as stated: a base of the output stays in the output when one provider ticker
  is added. It fails in three ways.

  The base of the added ticker: X is quoted in USD with a threshold of 0.5, three
  providers report 2 and X is published at 2; a fourth provider's 6 moves the mean to 3
  and the band to 3 \<plusminus> 0.866, no ticker survives the final filter, and X is dropped.

  Every base: with the pair Y/X configured as well, the same fourth ticker empties the
  filter over the rates of X in the conversion of Y/X; \<^verbatim>\<open>vwapRate\<close> fails,
  \<^verbatim>\<open>convertTickersToUSD\<close> returns the error, and W, which has nothing to do with X, is
  lost with all other bases.

  A base converted through the base of the added ticker: X has one quote of 2 and Y is
  published at 2 from three USD quotes of 2 and one quote of 1 X, with a threshold of 0.5
  for Y; a second quote of 10 for X moves the rate of X to 6, the converted ticker of Y
  to 6, and no ticker of Y survives the final filter.
\<close>

theorem added_ticker_removes_base:
  "(convertTickersToUSD StandardDeviation ComputeVWAP threeReports fourProviders halfSigma []
      = Inr (Some [(''X'', 2 * 10 ^ 18)])
    \<and> convertTickersToUSD StandardDeviation ComputeVWAP
        (addTicker ''D'' ''XUSD'' (mkTicker (6 * 10 ^ 18) (10 ^ 18)) threeReports)
        fourProviders halfSigma []
      = Inr (Some []))
   \<and> (convertTickersToUSD StandardDeviation ComputeVWAP quotedReports crossPairs halfSigma
        [(''W'', 1), (''Y'', 1)]
      = Inr (Some [(''W'', 5 * 10 ^ 18), (''X'', 2 * 10 ^ 18), (''Y'', 2 * 10 ^ 18)])
    \<and> convertTickersToUSD StandardDeviation ComputeVWAP
        (addTicker ''D'' ''XUSD'' (mkTicker (6 * 10 ^ 18) (10 ^ 18)) quotedReports)
        crossPairs halfSigma [(''W'', 1), (''Y'', 1)]
      = Inl NoTickers)
   \<and> (convertTickersToUSD StandardDeviation ComputeVWAP convertedReports crossPairs
        [(''Y'', 5 * 10 ^ 17)] [(''W'', 1), (''X'', 1)]
      = Inr (Some [(''W'', 5 * 10 ^ 18), (''X'', 2 * 10 ^ 18), (''Y'', 2 * 10 ^ 18)])
    \<and> convertTickersToUSD StandardDeviation ComputeVWAP
        (addTicker ''D'' ''XUSD'' (mkTicker (10 * 10 ^ 18) (10 ^ 18)) convertedReports)
        crossPairs [(''Y'', 5 * 10 ^ 17)] [(''W'', 1), (''X'', 1)]
      = Inr (Some [(''W'', 5 * 10 ^ 18), (''X'', 6 * 10 ^ 18)]))"
proof -
  have 1: "length threeReports \<noteq> 0" by (simp add: threeReports_def)
  have 2: "length (addTicker ''D'' ''XUSD'' (mkTicker (6 * 10 ^ 18) (10 ^ 18)) threeReports)
             \<noteq> 0"
    by (simp add: addTicker_def)
  have a: "convertTickersToUSD StandardDeviation ComputeVWAP threeReports fourProviders
             halfSigma [] = Inr (Some [(''X'', 2 * 10 ^ 18)])"
    unfolding convertTickersToUSD_def threeReports_rates using 1
    by (simp only: if_False sum.case threeReports_final)
  have b: "convertTickersToUSD StandardDeviation ComputeVWAP
       (addTicker ''D'' ''XUSD'' (mkTicker (6 * 10 ^ 18) (10 ^ 18)) threeReports)
       fourProviders halfSigma [] = Inr (Some [])"
    unfolding convertTickersToUSD_def fourReports_rates using 2
    by (simp only: if_False sum.case fourReports_final)
  from a b quotedReports_before quotedReports_after convertedReports_before
    convertedReports_after
  show ?thesis by (intro conjI)
qed

text \<open>
  Claim C9, amended. Let a provider ticker of the symbol S be added to an input on which
  the resolver publishes the base b, and let b not convert through S: b is not the base
  of the pair S and has no pair quoted in a base that converts through S. Then either the
  resolver fails on the extended input, and returns the error and no base at all, or it
  publishes b again, at the same rate.
\<close>

theorem independent_base_keeps_rate:
  assumes "publishedRate
             (convertTickersToUSD sd vwap providerPrices providerPairs deviationThresholds
                providerMinOverrides) b = Some rate"
    and "\<not> convertsThrough (collectPairs providerPairs) symbol b"
  shows "(\<exists>err. convertTickersToUSD sd vwap (addTicker providerName symbol t providerPrices)
                  providerPairs deviationThresholds providerMinOverrides = Inl err)
       \<or> publishedRate
           (convertTickersToUSD sd vwap (addTicker providerName symbol t providerPrices)
              providerPairs deviationThresholds providerMinOverrides) b = Some rate"
proof -
  let ?ps = "collectPairs providerPairs"
  let ?pp' = "addTicker providerName symbol t providerPrices"
  let ?bs = "groupBySymbol providerPrices"
  let ?bs' = "groupBySymbol ?pp'"
  let ?dep = "convertsThrough ?ps symbol"
  let ?I = "\<lambda>cp. \<not> ?dep (Base cp)"
  have ne: "providerPrices \<noteq> []"
    using assms(1) by (auto simp: convertTickersToUSD_def publishedRate_def)
  have ne': "?pp' \<noteq> []"
    by (cases providerPrices) (auto simp: addTicker_def)
  from assms(1) ne obtain W
    where W: "resolveUSDRates sd vwap providerPrices providerPairs deviationThresholds
                providerMinOverrides = Inr W"
    by (auto simp: convertTickersToUSD_def publishedRate_def split: sum.splits)
  show ?thesis
  proof (cases "resolveUSDRates sd vwap ?pp' providerPairs deviationThresholds
                  providerMinOverrides")
    case (Inl err)
    with ne' show ?thesis by (simp add: convertTickersToUSD_def)
  next
    case (Inr W')
    have cl: "\<forall>cp \<in> set ?ps. (String cp = symbol \<or> ?dep (Quote cp)) \<longrightarrow> ?dep (Base cp)"
      by (auto intro: convertsThrough.intros)
    have same: "\<forall>sym. sym \<noteq> symbol \<longrightarrow> map_of ?bs sym = map_of ?bs sym" by simp
    have other: "\<forall>sym. sym \<noteq> symbol \<longrightarrow> map_of ?bs' sym = map_of ?bs sym"
      by (simp add: groupBySymbol_addTicker_other)
    have start: "\<forall>b. \<not> ?dep b \<longrightarrow> map_of ([]::USDRates) b = map_of ([]::USDRates) b" by simp
    from conversionPasses_project [OF W [unfolded resolveUSDRates_def] cl same start]
    obtain W2 where p: "conversionPasses sd vwap deviationThresholds providerMinOverrides ?bs
                          maxConversions (filter ?I ?ps) [] = Inr W2"
      and a: "\<forall>b. \<not> ?dep b \<longrightarrow> map_of W b = map_of W2 b"
      by blast
    from conversionPasses_project [OF Inr [unfolded resolveUSDRates_def] cl other start]
    obtain W2' where p': "conversionPasses sd vwap deviationThresholds providerMinOverrides
                          ?bs maxConversions (filter ?I ?ps) [] = Inr W2'"
      and a': "\<forall>b. \<not> ?dep b \<longrightarrow> map_of W' b = map_of W2' b"
      by blast
    from p p' have "W2' = W2" by simp
    with a a' assms(2) have "map_of W' b = map_of W b" by simp
    with publishedRate_resolved [OF W ne, of b] publishedRate_resolved [OF Inr ne', of b]
      assms(1)
    show ?thesis by simp
  qed
qed

lemma crossPairs_pairs:
  "collectPairs crossPairs
     = [mkPair ''X'' ''USD'', mkPair ''Y'' ''USD'', mkPair ''W'' ''USD'', mkPair ''Y'' ''X'']"
  by code_simp

theorem independent_base_keeps_rate_witness:
  "publishedRate
     (convertTickersToUSD StandardDeviation ComputeVWAP convertedReports crossPairs
        [(''Y'', 5 * 10 ^ 17)] [(''W'', 1), (''X'', 1)]) ''W''
     = Some (5 * 10 ^ 18)
   \<and> \<not> convertsThrough (collectPairs crossPairs) ''XUSD'' ''W''
   \<and> publishedRate
       (convertTickersToUSD StandardDeviation ComputeVWAP
          (addTicker ''D'' ''XUSD'' (mkTicker (10 * 10 ^ 18) (10 ^ 18)) convertedReports)
          crossPairs [(''Y'', 5 * 10 ^ 17)] [(''W'', 1), (''X'', 1)]) ''W''
     = Some (5 * 10 ^ 18)"
proof -
  have before: "publishedRate
     (convertTickersToUSD StandardDeviation ComputeVWAP convertedReports crossPairs
        [(''Y'', 5 * 10 ^ 17)] [(''W'', 1), (''X'', 1)]) ''W''
     = Some (5 * 10 ^ 18)"
    unfolding convertedReports_before by (simp add: publishedRate_def)
  have through: "b = ''X'' \<or> b = ''Y''"
    if "convertsThrough (collectPairs crossPairs) ''XUSD'' b" for b
    using that
    by (induction rule: convertsThrough.induct)
      (auto simp: crossPairs_pairs mkPair_def String_def)
  then have indep: "\<not> convertsThrough (collectPairs crossPairs) ''XUSD'' ''W''"
    by fastforce
  have ok: "\<nexists>err. convertTickersToUSD StandardDeviation ComputeVWAP
          (addTicker ''D'' ''XUSD'' (mkTicker (10 * 10 ^ 18) (10 ^ 18)) convertedReports)
          crossPairs [(''Y'', 5 * 10 ^ 17)] [(''W'', 1), (''X'', 1)] = Inl err"
    unfolding convertedReports_after by simp
  from independent_base_keeps_rate [OF before indep, of "''D''"
      "mkTicker (10 * 10 ^ 18) (10 ^ 18)"] ok
  have "publishedRate
       (convertTickersToUSD StandardDeviation ComputeVWAP
          (addTicker ''D'' ''XUSD'' (mkTicker (10 * 10 ^ 18) (10 ^ 18)) convertedReports)
          crossPairs [(''Y'', 5 * 10 ^ 17)] [(''W'', 1), (''X'', 1)]) ''W''
     = Some (5 * 10 ^ 18)"
    by blast
  with before indep show ?thesis by (intro conjI)
qed

section \<open>Properties of the collection step\<close>

lemma acceptTicker_entry:
  assumes "acceptTicker ds providerName reply a (pp, h) = (pp', h')"
    and "map_of pp' name = Some inner'"
    and "map_of inner' symbol = Some t"
  shows "(\<exists>inner. map_of pp name = Some inner \<and> map_of inner symbol = Some t)
   \<or> (name = providerName \<and> map_of reply symbol = Some (Some t)
       \<and> symbol \<notin> set ds \<and> String a = symbol)"
proof (cases "map_of reply (String a)")
  case None
  with assms show ?thesis by (simp add: acceptTicker_def)
next
  case (Some r)
  show ?thesis
  proof (cases r)
    case None
    with Some assms show ?thesis by (simp add: acceptTicker_def)
  next
    case (Some ticker)
    show ?thesis
    proof (cases "String a \<in> set ds")
      case True
      with Some \<open>map_of reply (String a) = Some r\<close> assms show ?thesis
        by (simp add: acceptTicker_def)
    next
      case False
      with Some \<open>map_of reply (String a) = Some r\<close> assms(1)
      have pp': "pp' = AList.update providerName
                    (AList.update (String a) ticker
                       (case map_of pp providerName of None \<Rightarrow> [] | Some m \<Rightarrow> m)) pp"
        by (simp add: acceptTicker_def)
      show ?thesis
      proof (cases "name = providerName")
        case n: True
        with assms(2) pp' have inner': "inner' = AList.update (String a) ticker
                       (case map_of pp providerName of None \<Rightarrow> [] | Some m \<Rightarrow> m)"
          by (simp add: update_conv')
        show ?thesis
        proof (cases "symbol = String a")
          case True
          with assms(3) inner' have "t = ticker" by (simp add: update_conv')
          with True n False Some \<open>map_of reply (String a) = Some r\<close> show ?thesis by simp
        next
          case s: False
          with assms(3) inner'
          have "map_of (case map_of pp providerName of None \<Rightarrow> [] | Some m \<Rightarrow> m) symbol = Some t"
            by (simp add: update_conv')
          then show ?thesis using n by (cases "map_of pp providerName") auto
        qed
      next
        case False
        with assms(2) pp' have "map_of pp name = Some inner'" by (simp add: update_conv')
        with assms(3) show ?thesis by blast
      qed
    qed
  qed
qed

lemma mergeReply_fold:
  "fold (acceptTicker ds providerName reply) ps (pp, h) = (pp', h') \<Longrightarrow>
   map_of pp' name = Some inner' \<Longrightarrow>
   map_of inner' symbol = Some t \<Longrightarrow>
   (\<exists>inner. map_of pp name = Some inner \<and> map_of inner symbol = Some t)
   \<or> (name = providerName \<and> map_of reply symbol = Some (Some t)
       \<and> symbol \<notin> set ds \<and> (\<exists>pair \<in> set ps. String pair = symbol))"
proof (induction ps arbitrary: pp h)
  case Nil
  then show ?case by simp
next
  case (Cons a ps)
  obtain pp1 h1 where step: "acceptTicker ds providerName reply a (pp, h) = (pp1, h1)"
    by (cases "acceptTicker ds providerName reply a (pp, h)")
  with Cons.prems(1) have "fold (acceptTicker ds providerName reply) ps (pp1, h1) = (pp', h')"
    by simp
  from Cons.IH [OF this Cons.prems(2,3)]
  consider (old) inner where "map_of pp1 name = Some inner" "map_of inner symbol = Some t"
    | (new) "name = providerName" "map_of reply symbol = Some (Some t)"
        "symbol \<notin> set ds" "\<exists>pair \<in> set ps. String pair = symbol"
    by blast
  then show ?case
  proof cases
    case old
    from acceptTicker_entry [OF step old] show ?thesis by auto
  next
    case new
    then show ?thesis by auto
  qed
qed

text \<open>
  Claim C7, as stated: every ticker accepted into the aggregated map has a price above
  zero. It fails for the reply of the zero provider: \<^verbatim>\<open>ZeroProvider.Poll\<close> stores price 0
  with volume 1, which is not the zero value \<^verbatim>\<open>TickerPrice{}\<close>, and the merge accepts it.
\<close>

theorem mergeReply_zero_price:
  "ZeroProvider_Poll [''XUSD''] 7 [] = [(''XUSD'', Some \<lparr>Price = 0, Volume = 10 ^ 18, Time = 7\<rparr>)]
   \<and> fst (mergeReply [] ''zero'' [mkPair ''X'' ''USD''] (ZeroProvider_Poll [''XUSD''] 7 []) ([], []))
     = [(''zero'', [(''XUSD'', \<lparr>Price = 0, Volume = 10 ^ 18, Time = 7\<rparr>)])]"
  by code_simp

text \<open>
  Claim C7, amended. Every ticker of the aggregated map after the merge of a provider's
  reply was in the map before, or is the entry of the reply for the symbol of one of the
  provider's pairs, is not the zero value \<^verbatim>\<open>TickerPrice{}\<close>, and its symbol is not a
  derivative symbol. Its price is not tested.
\<close>

theorem mergeReply_accepted:
  assumes "mergeReply derivativeSymbols providerName currencyPairs reply
             (providerPrices, history) = (providerPrices', history')"
    and "map_of providerPrices' name = Some tickers"
    and "map_of tickers symbol = Some t"
  shows "(\<exists>before. map_of providerPrices name = Some before \<and> map_of before symbol = Some t)
   \<or> (name = providerName \<and> map_of reply symbol = Some (Some t)
       \<and> symbol \<notin> set derivativeSymbols
       \<and> (\<exists>pair \<in> set currencyPairs. String pair = symbol))"
proof -
  from assms(1)
  have "fold (acceptTicker derivativeSymbols providerName reply)
          (filteredPairs reply currencyPairs) (providerPrices, history)
        = (providerPrices', history')"
    by (simp add: mergeReply_def)
  from mergeReply_fold [OF this assms(2,3)]
  show ?thesis by (auto simp: filteredPairs_def)
qed

theorem mergeReply_accepted_witness:
  "map_of (ZeroProvider_Poll [''XUSD''] 7 []) ''XUSD''
     = Some (Some \<lparr>Price = 0, Volume = 10 ^ 18, Time = 7\<rparr>)"
proof -
  have 1: "mergeReply [] ''zero'' [mkPair ''X'' ''USD'']
                   (ZeroProvider_Poll [''XUSD''] 7 []) ([], [])
             = ([(''zero'', [(''XUSD'', \<lparr>Price = 0, Volume = 10 ^ 18, Time = 7\<rparr>)])], [])"
    by code_simp
  have 2: "map_of [(''zero'', [(''XUSD'', \<lparr>Price = 0, Volume = 10 ^ 18, Time = 7\<rparr>)])] ''zero''
             = Some [(''XUSD'', \<lparr>Price = 0, Volume = 10 ^ 18, Time = 7\<rparr>)]"
    by simp
  have 3: "map_of [(''XUSD'', \<lparr>Price = 0, Volume = 10 ^ 18, Time = 7\<rparr>)] ''XUSD''
             = Some \<lparr>Price = 0, Volume = 10 ^ 18, Time = 7\<rparr>"
    by simp
  show ?thesis
    using mergeReply_accepted [OF 1 2 3] by simp
qed

section \<open>Properties of the vote scheduler\<close>

text \<open>
  Claim C2, as stated: a tick in PrevoteSubmitted before the end of the vote window runs
  the price-setting step. It fails in scenario S5 at second 104: the tick returns at the
  guard in front of \<^verbatim>\<open>SetPrices\<close>, with no effect at all.
\<close>

theorem tick_skips_SetPrices:
  "tick rev ratesText (tickAt 104) submitted = (Returned None, submitted, [])
   \<and> RanSetPrices \<notin> set (snd (snd (tick rev ratesText (tickAt 104) submitted)))"
  by (simp add: tick_def submitted_def tickAt_def)

text \<open>
  Claim C2, amended. A tick that arrives while a prevote is pending and before the end of
  the current vote window returns at once: it does not run \<^verbatim>\<open>SetPrices\<close>, submits
  nothing, and leaves the oracle (pending prevote, window start, prices) unchanged.
\<close>

theorem tick_before_window_end:
  assumes "previousPrevote st = Some pp"
    and "previousVotePeriod st = Clock start"
    and "now env < start + VotePeriod st"
  shows "tick digest ratesString env st = (Returned None, st, [])"
  using assms by (simp add: tick_def)

theorem tick_before_window_end_witness:
  "tick rev ratesText (tickAt 104) submitted = (Returned None, submitted, [])"
proof -
  have 1: "previousPrevote submitted
             = Some \<lparr>ExchangeRates = ''ATOM:10'', Salt = ''5a17'', SubmitBlockHeight = 100\<rparr>"
    by (simp add: submitted_def)
  have 2: "previousVotePeriod submitted = Clock (100 * 10 ^ 9)"
    by (simp add: submitted_def)
  have 3: "now (tickAt 104) < 100 * 10 ^ 9 + VotePeriod submitted"
    by (simp add: submitted_def tickAt_def)
  show ?thesis by (rule tick_before_window_end [OF 1 2 3])
qed

text \<open>
  Claim C8, as stated: every tick that arrives with a pending prevote after the end of the
  next vote window discards the prevote and counts a missed vote. It fails when
  \<^verbatim>\<open>SetPrices\<close> returns an error (here: a configured provider that \<^verbatim>\<open>NewProvider\<close> does
  not know): the tick returns that error in front of the check, the prevote stays pending
  and nothing is counted.
\<close>

theorem tick_missed_SetPrices_error:
  "tick rev ratesText (failingAt 112) submitted
     = (Returned (Some (ProviderNotFound ''stride'')), submitted, [RanSetPrices])
   \<and> previousPrevote (fst (snd (tick rev ratesText (failingAt 112) submitted))) \<noteq> None"
  by (simp add: tick_def submitted_def failingAt_def)

text \<open>
  Claim C8, amended. For a tick that arrives with a pending prevote more than two vote
  periods after the window start: when \<^verbatim>\<open>SetPrices\<close> succeeds, the tick discards the
  pending prevote, resets the window start, increments \<^verbatim>\<open>vote.failure.missed\<close> and submits
  nothing; when \<^verbatim>\<open>SetPrices\<close> fails, the tick returns its error, submits nothing and
  leaves the oracle unchanged.
\<close>

theorem tick_missed_vote:
  assumes "previousPrevote st = Some pp"
    and "previousVotePeriod st = Clock start"
    and "0 \<le> VotePeriod st"
    and "start + 2 * VotePeriod st < now env"
  shows "(\<forall>computed. setPricesResult env = Inr computed \<longrightarrow>
            tick digest ratesString env st
              = (Returned None,
                 st\<lparr>prices := computed, previousVotePeriod := UnixEpoch,
                    previousPrevote := None\<rparr>,
                 [RanSetPrices, IncrCounter ''vote.failure.missed'']))
       \<and> (\<forall>err. setPricesResult env = Inl err \<longrightarrow>
            tick digest ratesString env st = (Returned (Some err), st, [RanSetPrices]))"
  using assms by (simp add: tick_def)

theorem tick_missed_vote_witness:
  "tick rev ratesText (tickAt 112) submitted
     = (Returned None,
        submitted\<lparr>prices := Some [(''ATOM'', 10 * 10 ^ 18)], previousVotePeriod := UnixEpoch,
                  previousPrevote := None\<rparr>,
        [RanSetPrices, IncrCounter ''vote.failure.missed''])"
proof -
  have 1: "previousPrevote submitted
             = Some \<lparr>ExchangeRates = ''ATOM:10'', Salt = ''5a17'', SubmitBlockHeight = 100\<rparr>"
    by (simp add: submitted_def)
  have 2: "previousVotePeriod submitted = Clock (100 * 10 ^ 9)"
    by (simp add: submitted_def)
  have 3: "0 \<le> VotePeriod submitted"
    by (simp add: submitted_def)
  have 4: "100 * 10 ^ 9 + 2 * VotePeriod submitted < now (tickAt 112)"
    by (simp add: submitted_def tickAt_def)
  have 5: "setPricesResult (tickAt 112) = Inr (Some [(''ATOM'', 10 * 10 ^ 18)])"
    by (simp add: tickAt_def)
  from tick_missed_vote [OF 1 2 3 4, of rev ratesText] 5 show ?thesis by simp
qed


lemma published_append: "published (xs @ ys) = published xs @ published ys"
  by (induction xs rule: published.induct) simp_all

lemma bindingHolds_single: "bindingHolds digest [m]"
  by (simp add: bindingHolds_def)

lemma bindingHolds_Cons:
  "bindingHolds digest (m # m' # tr) \<longleftrightarrow>
     commitsTo digest m m' \<and> bindingHolds digest (m' # tr)"
proof
  assume h: "bindingHolds digest (m # m' # tr)"
  show "commitsTo digest m m' \<and> bindingHolds digest (m' # tr)"
  proof
    from h [unfolded bindingHolds_def, rule_format, of 0]
    show "commitsTo digest m m'" by simp
  next
    show "bindingHolds digest (m' # tr)"
      unfolding bindingHolds_def
    proof (intro allI impI)
      fix k
      assume "Suc k < length (m' # tr)"
      with h [unfolded bindingHolds_def, rule_format, of "Suc k"]
      show "commitsTo digest ((m' # tr) ! k) ((m' # tr) ! Suc k)" by simp
    qed
  qed
next
  assume h: "commitsTo digest m m' \<and> bindingHolds digest (m' # tr)"
  show "bindingHolds digest (m # m' # tr)"
    unfolding bindingHolds_def
  proof (intro allI impI)
    fix k
    assume a: "Suc k < length (m # m' # tr)"
    show "commitsTo digest ((m # m' # tr) ! k) ((m # m' # tr) ! Suc k)"
    proof (cases k)
      case 0
      with h show ?thesis by simp
    next
      case (Suc j)
      with a h [THEN conjunct2, unfolded bindingHolds_def, rule_format, of j]
      show ?thesis by simp
    qed
  qed
qed

lemma tick_cases:
  assumes t: "tick digest ratesString env st = (out, st', effects)"
  obtains
    (quiet) "OperatorAccount st' = OperatorAccount st" "published effects = []"
      "previousPrevote st' = previousPrevote st \<or> previousPrevote st' = None"
  | (prevote) pp' where "OperatorAccount st' = OperatorAccount st"
      "previousPrevote st = None" "previousPrevote st' = Some pp'" "out = Returned None"
      "published effects
         = [jsonMarshal
              (Prevote (GetAggregateVoteHash digest (Salt pp') (ExchangeRates pp')
                          (OperatorAccount st)) (OperatorAccount st))]"
  | (vote) pp where "OperatorAccount st' = OperatorAccount st"
      "previousPrevote st = Some pp" "previousPrevote st' = None" "out = Returned None"
      "published effects
         = [jsonMarshal (Vote (Salt pp) (ExchangeRates pp) (OperatorAccount st))]"
proof (cases "previousVotePeriod st \<noteq> UnixEpoch
              \<and> instant (previousVotePeriod st) + VotePeriod st > now env")
  case True
  with t have "st' = st" "effects = []" by (auto simp: tick_def)
  then show ?thesis using quiet by simp
next
  case noskip: False
  show ?thesis
  proof (cases "setPricesResult env")
    case (Inl err)
    with t noskip have "st' = st" "effects = [RanSetPrices]" by (auto simp: tick_def)
    then show ?thesis using quiet by simp
  next
    case (Inr computed)
    show ?thesis
    proof (cases "previousVotePeriod st \<noteq> UnixEpoch
              \<and> instant (previousVotePeriod st) + VotePeriod st + VotePeriod st < now env")
      case True
      with t noskip Inr
      have "st' = st\<lparr>prices := computed, previousVotePeriod := UnixEpoch,
                       previousPrevote := None\<rparr>"
        "effects = [RanSetPrices, IncrCounter ''vote.failure.missed'']"
        by (auto simp: tick_def)
      then show ?thesis using quiet by simp
    next
      case nomiss: False
      show ?thesis
      proof (cases "saltResult env")
        case (Inl err)
        with t noskip Inr nomiss
        have "st' = st\<lparr>prices := computed\<rparr>" "effects = [RanSetPrices]"
          by (auto simp: tick_def)
        then show ?thesis using quiet by simp
      next
        case salt: (Inr salt)
        show ?thesis
        proof (cases "ratesString computed")
          case None
          with t noskip Inr nomiss salt
          have "st' = st\<lparr>prices := computed\<rparr>" "effects = [RanSetPrices]"
            by (auto simp: tick_def)
          then show ?thesis using quiet by simp
        next
          case (Some exchangeRatesStr)
          show ?thesis
          proof (cases "putTxFails env")
            case True
            with t noskip Inr nomiss salt Some
            have "st' = st\<lparr>prices := computed\<rparr>" "effects = [RanSetPrices]"
              by (cases "previousPrevote st"; auto simp: tick_def)+
            then show ?thesis using quiet by simp
          next
            case False
            show ?thesis
            proof (cases "previousPrevote st")
              case None
              with t noskip Inr nomiss salt Some False
              have "st' = st\<lparr>prices := computed, previousVotePeriod := Clock (now env),
                      previousPrevote :=
                        Some \<lparr>ExchangeRates = exchangeRatesStr, Salt = salt,
                              SubmitBlockHeight = now env div 10 ^ 9\<rparr>\<rparr>"
                "out = Returned None"
                "effects = [RanSetPrices,
                   Submitted (jsonMarshal
                     (Prevote (GetAggregateVoteHash digest salt exchangeRatesStr
                                 (OperatorAccount st)) (OperatorAccount st)))]"
                by (auto simp: tick_def)
              then show ?thesis using None
                  prevote [of "\<lparr>ExchangeRates = exchangeRatesStr, Salt = salt,
                              SubmitBlockHeight = now env div 10 ^ 9\<rparr>"]
                by simp
            next
              case pp: (Some pp)
              with t noskip Inr nomiss salt Some False
              have "st' = st\<lparr>prices := computed, previousPrevote := None,
                      previousVotePeriod := UnixEpoch\<rparr>"
                "out = Returned None"
                "effects = [RanSetPrices,
                   Submitted (jsonMarshal
                     (Vote (Salt pp) (ExchangeRates pp) (OperatorAccount st))),
                   HealthchecksPing]"
                by (auto simp: tick_def)
              then show ?thesis using pp vote [of pp] by simp
            qed
          qed
        qed
      qed
    qed
  qed
qed

lemma run_step:
  assumes t: "tick digest ratesString env st = (out, st', effects)"
  shows "published (run digest ratesString (env # envs) st)
             = published effects
               @ (case out of Panicked \<Rightarrow> []
                  | Returned e \<Rightarrow> published (run digest ratesString envs st'))"
  by (cases out) (simp_all add: t published_append)

lemma run_binding:
  "pendingMatches digest m st \<Longrightarrow>
   bindingHolds digest (m # published (run digest ratesString envs st))"
proof (induction envs arbitrary: m st)
  case Nil
  then show ?case by (simp add: bindingHolds_single)
next
  case (Cons env envs)
  obtain out st' effects where t: "tick digest ratesString env st = (out, st', effects)"
    by (cases "tick digest ratesString env st")
  note r = run_step [OF t, of envs]
  from t show ?case
  proof (cases rule: tick_cases)
    case quiet
    with Cons.prems have pm: "pendingMatches digest m st'"
      by (auto simp: pendingMatches_def)
    show ?thesis
    proof (cases out)
      case Panicked
      with quiet(2) show ?thesis by (simp add: r bindingHolds_single del: run.simps)
    next
      case (Returned e)
      with quiet(2) Cons.IH [OF pm] show ?thesis by (simp add: r del: run.simps)
    qed
  next
    case (prevote pp')
    let ?p = "jsonMarshal
                (Prevote (GetAggregateVoteHash digest (Salt pp') (ExchangeRates pp')
                            (OperatorAccount st)) (OperatorAccount st))"
    from prevote have "pendingMatches digest ?p st'"
      by (simp add: pendingMatches_def)
    from Cons.IH [OF this]
    have "bindingHolds digest (?p # published (run digest ratesString envs st'))" .
    moreover have "commitsTo digest m ?p" by (simp add: commitsTo_def)
    ultimately
    have "bindingHolds digest (m # ?p # published (run digest ratesString envs st'))"
      by (simp only: bindingHolds_Cons)
    with prevote(4,5) show ?thesis by (simp add: r del: run.simps jsonMarshal.simps)
  next
    case (vote pp)
    let ?v = "jsonMarshal (Vote (Salt pp) (ExchangeRates pp) (OperatorAccount st))"
    from vote have "pendingMatches digest ?v st'"
      by (simp add: pendingMatches_def)
    from Cons.IH [OF this]
    have "bindingHolds digest (?v # published (run digest ratesString envs st'))" .
    moreover from Cons.prems vote(2)
    have "m = jsonMarshal
                (Prevote (GetAggregateVoteHash digest (Salt pp) (ExchangeRates pp)
                            (OperatorAccount st)) (OperatorAccount st))"
      by (simp add: pendingMatches_def)
    then have "commitsTo digest m ?v"
      unfolding commitsTo_def by blast
    ultimately
    have "bindingHolds digest (m # ?v # published (run digest ratesString envs st'))"
      by (simp only: bindingHolds_Cons)
    with vote(4,5) show ?thesis by (simp add: r del: run.simps jsonMarshal.simps)
  qed
qed

text \<open>
  What holds of every run, from any state: a vote payload that follows another payload
  follows the prevote payload built from the same salt, rates string and feeder. The hash
  that prevote carries is the digest of \<open>salt:exchange_rates:feeder\<close> after the coercion of
  \<^verbatim>\<open>json.Marshal\<close>.
\<close>

lemma prevote_carries_coerced_digest:
  assumes "published (run digest ratesString envs st) = tr"
    and "Suc k < length tr"
    and "tr ! Suc k = Vote s r f"
  shows "\<exists>salt rates feeder.
           s = jsonString salt \<and> r = jsonString rates \<and> f = jsonString feeder
           \<and> tr ! k = Prevote (jsonString (GetAggregateVoteHash digest salt rates feeder))
                        (jsonString feeder)"
proof -
  define m where "m = (case previousPrevote st of
      None \<Rightarrow> Vote [] [] []
    | Some pp \<Rightarrow>
        jsonMarshal (Prevote (GetAggregateVoteHash digest (Salt pp) (ExchangeRates pp)
                                (OperatorAccount st)) (OperatorAccount st)))"
  have "pendingMatches digest m st"
    by (simp add: pendingMatches_def m_def)
  then have "bindingHolds digest (m # tr)"
    using run_binding [of digest m st ratesString envs] assms(1) by simp
  then have "bindingHolds digest tr"
    using assms(2) by (cases tr) (simp_all only: bindingHolds_Cons list.size)
  with assms(2) have "commitsTo digest (tr ! k) (tr ! Suc k)"
    by (simp add: bindingHolds_def)
  with assms(3) show ?thesis
    unfolding commitsTo_def by auto
qed

lemma sha256_abc:
  "map of_char (sha256 ''abc'')
     = [0xba, 0x78, 0x16, 0xbf, 0x8f, 0x01, 0xcf, 0xea, 0x41, 0x41, 0x40, 0xde,
        0x5d, 0xae, 0x22, 0x23, 0xb0, 0x03, 0x61, 0xa3, 0x96, 0x17, 0x7a, 0x9c,
        0xb4, 0x10, 0xff, 0x61, 0xf2, 0x00, 0x15, (0xad::int)]"
  by code_simp

text \<open>
  Claim C1, at scenario S5 with a salt of \<^verbatim>\<open>GenerateSalt\<close>: the oracle is idle, one tick
  submits the prevote and the tick six seconds later the vote. The vote reveals the salt
  and the rates string; the digest of \<open>salt:exchange_rates:feeder\<close> for them is
  \<^verbatim>\<open>0c32d2a9e0c5b7c28fd65f3af8698b74cd89c8f1\<close>. The prevote payload does not carry it:
  the bytes \<^verbatim>\<open>e0\<close>, \<^verbatim>\<open>d6\<close>, \<^verbatim>\<open>f8\<close>, \<^verbatim>\<open>8b\<close>, \<^verbatim>\<open>c8\<close> and \<^verbatim>\<open>f1\<close> are no UTF-8 where they stand,
  \<^verbatim>\<open>string(hash)\<close> hands them to \<^verbatim>\<open>json.Marshal\<close> as text, and each goes out as U+FFFD.
\<close>

theorem prevote_hash_not_digest:
  "published (run tmhashTruncated coinsText [saltedTickAt 100, saltedTickAt 106] idle)
     = [Prevote
          (map char_of
             [0x0c, 0x32, 0xd2, 0xa9, 0xef, 0xbf, 0xbd, 0xc5, 0xb7, 0xc2, 0x8f, 0xef,
              0xbf, 0xbd, 0x5f, 0x3a, 0xef, 0xbf, 0xbd, 0x69, 0xef, 0xbf, 0xbd, 0x74,
              0xcd, 0x89, 0xef, 0xbf, 0xbd, 0xef, 0xbf, 0xbd :: int])
          ''0.0.5700506'',
        Vote hexSalt ''10.000000000000000000ATOM'' ''0.0.5700506'']
   \<and> GetAggregateVoteHash tmhashTruncated hexSalt ''10.000000000000000000ATOM''
         ''0.0.5700506''
     = map char_of
         [0x0c, 0x32, 0xd2, 0xa9, 0xe0, 0xc5, 0xb7, 0xc2, 0x8f, 0xd6, 0x5f, 0x3a,
          0xf8, 0x69, 0x8b, 0x74, 0xcd, 0x89, 0xc8, 0xf1 :: int]"
  by code_simp


end
